theory Spec2Isabelle
  imports Main "HOL-Library.AList" "HOL-Library.Char_ord" "HOL-Library.List_Lexorder"
begin

section \<open>Exceptions and API responses\<close>

text \<open>
  Every exception class that the two modules raise or catch by name is a constructor.
  \<open>ConnectTimeout\<close> is \<open>requests.exceptions.ConnectTimeout\<close>; \<open>RequestException\<close>
  stands for every other exception of the \<open>requests\<close> package (connection refused, read
  timeout, ...), and \<open>OtherException\<close> for any further subclass of Python's \<open>Exception\<close>
  that a collaborator may raise.  \<open>KeyboardInterrupt\<close> is the only member that is not a
  subclass of \<open>Exception\<close>.
\<close>

datatype exc =
    ValueError string
  | KeyError string
  | IndexError
  | TypeError
  | AttributeError
  | UnboundLocalError string
  | KeyboardInterrupt
  | ConnectTimeout
  | RequestException string
  | PageError string
  | HTTPTimeoutError string
  | MediaWikiGeoCoordError string
  | MediaWikiException string
  | MediaWikiAPIURLError string
  | MediaWikiCategoryTreeError string
  | MediaWikiLoginError string
  | OtherException string

text \<open>
  Scalar Python values: the arguments of the memoized operations and the values of request
  parameters and continuation tokens.
\<close>

datatype pyval = PNone | PBool bool | PInt int | PStr string

type_synonym params = "string \<rightharpoonup> pyval"

text \<open>
  A decoded JSON reply.  The keys that the code tests for presence, or reads with a
  subscript that can raise \<open>KeyError\<close>, are optional fields; \<open>{}\<close> is the record with
  every field \<open>None\<close>.  One entry of \<open>query.categorymembers\<close> carries its \<open>type\<close> and
  \<open>title\<close>.
\<close>

record member =
  rec_type :: string
  rec_title :: string

record general_obj =
  g_generator :: "string option"
  g_server :: "string option"
  g_base :: "string option"

record query_obj =
  q_categorymembers :: "member list option"
  q_general :: "general_obj option"
  q_extensions :: "string list option"
  q_tokens :: "string option option"

record login_obj =
  l_result :: "string option"
  l_reason :: "string option"

text \<open>
  \<open>r_error\<close> is \<open>None\<close> when the reply has no \<open>"error"\<close> key, \<open>Some None\<close> when the error
  object has no \<open>"info"\<close>, and \<open>Some (Some s)\<close> when \<open>error.info\<close> is \<open>s\<close>.
\<close>

record response_obj =
  r_error :: "string option option"
  r_query :: "query_obj option"
  r_query_continue :: "(string \<rightharpoonup> params) option"
  r_continue :: "params option"
  r_login :: "login_obj option"

text \<open>
  \<open>wiki_request\<close> returns a mapping for every action but \<open>opensearch\<close>, whose reply is the
  JSON array \<open>[term, titles, descriptions, urls]\<close>; \<open>opensearch\<close> reads it as
  \<open>results[1]\<close>, \<open>results[2][i]\<close>, \<open>results[3][i]\<close>.
\<close>

datatype response =
    RObj response_obj
  | RList string "string list" "string list" "string list"

definition empty_obj :: response_obj where
  "empty_obj = \<lparr>r_error = None, r_query = None, r_query_continue = None,
                 r_continue = None, r_login = None\<rparr>"

section \<open>Static helpers of the client\<close>

definition http_error :: "string list" where
  "http_error = [''HTTP request timed out.'', ''Pool queue is full'']"

definition geo_error :: "string list" where
  "geo_error = [''Page coordinates unknown.'',
                ''One of the parameters gscoord, gspage, gsbbox is required'',
                ''Invalid coordinate provided'']"

text \<open>
  \<open>_check_error_response(response, query)\<close>.  \<open>"error" in response\<close> is key membership on a
  mapping and element membership on a list: of the four elements of an opensearch array
  only the first is a string, so the test holds there iff the term is \<open>"error"\<close>, and the
  subscript \<open>response["error"]\<close> on a list then raises \<open>TypeError\<close>.
\<close>

fun check_error_response :: "response \<Rightarrow> string \<Rightarrow> exc + unit" where
  "check_error_response (RObj r) query =
     (case r_error r of
        None \<Rightarrow> Inr ()
      | Some None \<Rightarrow> Inl (KeyError ''info'')
      | Some (Some err) \<Rightarrow>
          if err \<in> set http_error then Inl (HTTPTimeoutError query)
          else if err \<in> set geo_error then Inl (MediaWikiGeoCoordError err)
          else Inl (MediaWikiException err))"
| "check_error_response (RList term titles descs urls) query =
     (if term = ''error'' then Inl TypeError else Inr ())"

text \<open>
  Characters are code points below 256.  Those for which \<open>str.isspace\<close> holds, which
  \<open>str.strip()\<close> removes at both ends, are \<open>0x09\<close>-\<open>0x0D\<close>, \<open>0x1C\<close>-\<open>0x1F\<close>, the space,
  \<open>0x85\<close> and \<open>0xA0\<close>.
\<close>

definition is_space :: "char \<Rightarrow> bool" where
  "is_space c =
     (let n = (of_char c :: nat)
      in (9 \<le> n \<and> n \<le> 13) \<or> (28 \<le> n \<and> n \<le> 32) \<or> n = 133 \<or> n = 160)"

definition strip :: "string \<Rightarrow> string" where
  "strip s = rev (dropWhile is_space (rev (dropWhile is_space s)))"

text \<open>\<open>_check_query(value, message)\<close>; \<open>value\<close> may be \<open>None\<close>.\<close>

definition check_query :: "string option \<Rightarrow> string \<Rightarrow> exc + unit" where
  "check_query v message =
     (case v of
        None \<Rightarrow> Inl (ValueError message)
      | Some s \<Rightarrow> if strip s = [] then Inl (ValueError message) else Inr ())"

section \<open>Strings\<close>

text \<open>
  \<open>str.lower()\<close> on code points below 256: the letters \<open>A\<close>-\<open>Z\<close> and the capital letters
  \<open>0xC0\<close>-\<open>0xDE\<close> other than the multiplication sign \<open>0xD7\<close> are moved up by \<open>0x20\<close>; every
  other character is kept.
\<close>

definition upper_letters :: string where
  "upper_letters =
     ''ABCDEFGHIJKLMNOPQRSTUVWXYZ''
     @ [CHR 0xC0, CHR 0xC1, CHR 0xC2, CHR 0xC3, CHR 0xC4, CHR 0xC5, CHR 0xC6, CHR 0xC7,
        CHR 0xC8, CHR 0xC9, CHR 0xCA, CHR 0xCB, CHR 0xCC, CHR 0xCD, CHR 0xCE, CHR 0xCF,
        CHR 0xD0, CHR 0xD1, CHR 0xD2, CHR 0xD3, CHR 0xD4, CHR 0xD5, CHR 0xD6,
        CHR 0xD8, CHR 0xD9, CHR 0xDA, CHR 0xDB, CHR 0xDC, CHR 0xDD, CHR 0xDE]"

definition lower_letters :: string where
  "lower_letters =
     ''abcdefghijklmnopqrstuvwxyz''
     @ [CHR 0xE0, CHR 0xE1, CHR 0xE2, CHR 0xE3, CHR 0xE4, CHR 0xE5, CHR 0xE6, CHR 0xE7,
        CHR 0xE8, CHR 0xE9, CHR 0xEA, CHR 0xEB, CHR 0xEC, CHR 0xED, CHR 0xEE, CHR 0xEF,
        CHR 0xF0, CHR 0xF1, CHR 0xF2, CHR 0xF3, CHR 0xF4, CHR 0xF5, CHR 0xF6,
        CHR 0xF8, CHR 0xF9, CHR 0xFA, CHR 0xFB, CHR 0xFC, CHR 0xFD, CHR 0xFE]"

definition lower_char :: "char \<Rightarrow> char" where
  "lower_char c =
     (case map_of (zip upper_letters lower_letters) c of
        None \<Rightarrow> c
      | Some l \<Rightarrow> l)"

definition lower :: "string \<Rightarrow> string" where
  "lower s = map lower_char s"

definition startswith :: "string \<Rightarrow> string \<Rightarrow> bool" where
  "startswith s p = (take (length p) s = p)"

text \<open>
  \<open>s.replace(old, new)\<close>: every non-overlapping occurrence of \<open>old\<close>, from the left; with an
  empty \<open>old\<close> Python puts \<open>new\<close> before every character and at the end.
\<close>

function replace :: "string \<Rightarrow> string \<Rightarrow> string \<Rightarrow> string" where
  "replace old new [] = (if old = [] then new else [])"
| "replace old new (c # cs) =
     (if old = [] then new @ c # replace old new cs
      else if startswith (c # cs) old then new @ replace old new (drop (length old) (c # cs))
      else c # replace old new cs)"
  by pat_completeness auto
termination
  by (relation "measure (\<lambda>(old, new, s). length s)") auto

text \<open>
  \<open>template.format(lang=l)\<close>.  The template is literal text with the doubled braces
  \<open>{{\<close> and \<open>}}\<close> and replacement fields.  The field \<open>{lang}\<close>, also written with the
  conversion \<open>!s\<close> or an empty format specification, is replaced by \<open>l\<close>; a field with no
  name or a number asks for a positional argument, of which there is none (\<open>IndexError\<close>);
  a field with another name asks for a keyword that was not passed (\<open>KeyError\<close>); a brace
  that is not closed and a lone closing brace are \<open>ValueError\<close>s.  A field on \<open>lang\<close> with
  attribute or index access, with the conversion \<open>!r\<close> or \<open>!a\<close>, or with a format
  specification that is not empty lies outside this model of \<open>str.format\<close>; what is proved
  about \<open>set_api_url\<close> is proved for the templates on which the formatting returns.
\<close>

definition arg_name :: "string \<Rightarrow> string" where
  "arg_name field = takeWhile (\<lambda>x. x \<notin> set ''.[!:'') field"

definition format_field :: "string \<Rightarrow> string \<Rightarrow> exc + string" where
  "format_field field l =
     (if arg_name field = [] \<or> list_all (\<lambda>x. x \<in> set ''0123456789'') (arg_name field)
      then Inl IndexError
      else if arg_name field \<noteq> ''lang'' then Inl (KeyError (arg_name field))
      else if field \<in> set [''lang'', ''lang!s'', ''lang:'', ''lang!s:''] then Inr l
      else Inl (ValueError ''Invalid format specifier''))"

function format_lang :: "string \<Rightarrow> string \<Rightarrow> exc + string" where
  "format_lang [] l = Inr []"
| "format_lang (c # cs) l =
     (if c = CHR ''{'' then
        (if startswith cs ''{'' then map_sum id ((#) CHR ''{'') (format_lang (drop 1 cs) l)
         else if cs = [] then Inl (ValueError ''Single '{' encountered in format string'')
         else if CHR ''}'' \<notin> set cs
         then Inl (ValueError ''expected '}' before end of string'')
         else (case format_field (takeWhile (\<lambda>x. x \<noteq> CHR ''}'') cs) l of
                 Inl e \<Rightarrow> Inl e
               | Inr v \<Rightarrow>
                   map_sum id ((@) v)
                     (format_lang (drop 1 (dropWhile (\<lambda>x. x \<noteq> CHR ''}'') cs)) l)))
      else if c = CHR ''}'' then
        (if startswith cs ''}'' then map_sum id ((#) CHR ''}'') (format_lang (drop 1 cs) l)
         else Inl (ValueError ''Single '}' encountered in format string''))
      else map_sum id ((#) c) (format_lang cs l))"
  by pat_completeness auto
termination
  by (relation "measure (\<lambda>(s, l). length s)")
    (auto simp add: length_dropWhile_le le_imp_less_Suc diff_le_mono2
       intro: le_less_trans [OF diff_le_self])

text \<open>\<open>str(x)\<close> for the scalar values.\<close>

definition digit :: "nat \<Rightarrow> char" where
  "digit d = ''0123456789'' ! d"

function str_nat :: "nat \<Rightarrow> string" where
  "str_nat n = (if n < 10 then [digit n] else str_nat (n div 10) @ [digit (n mod 10)])"
  by pat_completeness auto
termination
  by (relation "measure id") auto

definition str_int :: "int \<Rightarrow> string" where
  "str_int i = (if i < 0 then CHR ''-'' # str_nat (nat (- i)) else str_nat (nat i))"

fun py_str :: "pyval \<Rightarrow> string" where
  "py_str PNone = ''None''"
| "py_str (PBool b) = (if b then ''True'' else ''False'')"
| "py_str (PInt i) = str_int i"
| "py_str (PStr s) = s"

text \<open>
  \<open>repr(s)\<close> of a string: in single quotes, or in double quotes when the string has a
  single quote and no double quote; the quote in use and the backslash are escaped, tab,
  newline and carriage return are written \<open>\t\<close>, \<open>\n\<close>, \<open>\r\<close>, and any other character that
  is not printable is written \<open>\xhh\<close>.
\<close>

definition hex_digit :: "nat \<Rightarrow> char" where
  "hex_digit d = ''0123456789abcdef'' ! d"

definition printable :: "char \<Rightarrow> bool" where
  "printable c =
     (let n = (of_char c :: nat) in (32 \<le> n \<and> n < 127) \<or> (161 \<le> n \<and> n \<noteq> 173))"

definition repr_char :: "char \<Rightarrow> char \<Rightarrow> string" where
  "repr_char quote c =
     (if c = quote \<or> c = CHR 0x5C then [CHR 0x5C, c]
      else if c = CHR 0x09 then [CHR 0x5C, CHR ''t'']
      else if c = CHR 0x0A then [CHR 0x5C, CHR ''n'']
      else if c = CHR 0x0D then [CHR 0x5C, CHR ''r'']
      else if printable c then [c]
      else [CHR 0x5C, CHR ''x'', hex_digit ((of_char c :: nat) div 16),
            hex_digit ((of_char c :: nat) mod 16)])"

definition py_repr :: "string \<Rightarrow> string" where
  "py_repr s =
     (let quote = (if CHR 0x27 \<in> set s \<and> CHR 0x22 \<notin> set s then CHR 0x22 else CHR 0x27)
      in quote # concat (map (repr_char quote) s) @ [quote])"

text \<open>\<open>bool(x)\<close>.\<close>

fun truthy :: "pyval \<Rightarrow> bool" where
  "truthy PNone = False"
| "truthy (PBool b) = b"
| "truthy (PInt i) = (i \<noteq> 0)"
| "truthy (PStr s) = (s \<noteq> [])"

text \<open>\<open>sep.join(xs)\<close>.\<close>

fun join :: "string \<Rightarrow> string list \<Rightarrow> string" where
  "join sep [] = []"
| "join sep [x] = x"
| "join sep (x # y # ys) = x @ sep @ join sep (y # ys)"

section \<open>The client\<close>

text \<open>
  The memoization cache is one dictionary: under the name of an operation the dictionary
  of that operation's entries, \<open>key \<mapsto> (timestamp, value)\<close>, and under \<open>"defaults"\<close> the
  captured default arguments of every operation seen so far.  \<open>m_defaults = None\<close> says that
  the key \<open>"defaults"\<close> is absent.  (No memoized operation is called \<open>defaults\<close>.)
\<close>

record 'v memo =
  m_entries :: "string \<rightharpoonup> (string \<rightharpoonup> int \<times> 'v)"
  m_defaults :: "(string \<rightharpoonup> (string \<times> pyval) list) option"

definition empty_memo :: "'v memo" where
  "empty_memo = \<lparr>m_entries = Map.empty, m_defaults = None\<rparr>"

datatype http_method = GET | POST

record request =
  rq_method :: http_method
  rq_url :: string
  rq_params :: params

text \<open>
  The slots of a \<open>MediaWiki\<close> instance that the modelled methods read or write, followed by
  the two parts of the outside world they touch: the clock (\<open>time.time()\<close>,
  \<open>datetime.now()\<close>; it advances in \<open>time.sleep\<close> and while a request is in flight) and the
  requests sent so far.  \<open>cache = None\<close> is the instance whose slot \<open>_cache\<close> is not assigned
  yet, which is the case while \<open>__init__\<close> runs the \<open>rate_limit\<close> setter.
\<close>

record 'v client =
  lang :: string
  api_url :: string
  cat_prefix :: string
  rate_limit :: bool
  rate_limit_last_call :: "int option"
  min_wait :: int
  api_version :: "int list option"
  api_version_str :: "string option"
  base_url :: "string option"
  extensions :: "string list option"
  supported_languages :: "(string \<times> string) list option"
  available_languages :: "(string \<times> bool) list option"
  cache :: "'v memo option"
  refresh_interval :: "int option"
  use_cache :: bool
  is_logged_in :: bool
  now :: int
  sent :: "request list"

text \<open>\<open>clear_memoized\<close>: \<open>if hasattr(self, "_cache"): self._cache.clear()\<close>.\<close>

definition clear_memoized :: "'v client \<Rightarrow> 'v client" where
  "clear_memoized c =
     (case cache c of None \<Rightarrow> c | Some m \<Rightarrow> c\<lparr>cache := Some empty_memo\<rparr>)"

text \<open>The entry stored for an operation and a key, if any.\<close>

definition cached :: "'v client \<Rightarrow> string \<Rightarrow> string \<Rightarrow> (int \<times> 'v) option" where
  "cached c name key =
     (case cache c of
        None \<Rightarrow> None
      | Some m \<Rightarrow> (case m_entries m name of None \<Rightarrow> None | Some part \<Rightarrow> part key))"

definition cached_defaults :: "'v client \<Rightarrow> string \<Rightarrow> (string \<times> pyval) list option" where
  "cached_defaults c name =
     (case cache c of
        None \<Rightarrow> None
      | Some m \<Rightarrow> (case m_defaults m of None \<Rightarrow> None | Some d \<Rightarrow> d name))"

text \<open>The setter of the property \<open>rate_limit\<close>.\<close>

definition set_rate_limit :: "pyval \<Rightarrow> 'v client \<Rightarrow> 'v client" where
  "set_rate_limit v c =
     clear_memoized (c\<lparr>rate_limit := truthy v, rate_limit_last_call := None\<rparr>)"

text \<open>The setter of the property \<open>language\<close>.\<close>

definition set_language :: "string \<Rightarrow> 'v client \<Rightarrow> 'v client" where
  "set_language l0 c =
     (let l = lower l0 in
      if lang c = l then c
      else
        let url = api_url c;
            tmp = replace (''/'' @ lang c @ ''.'') (''/'' @ l @ ''.'') url
        in clear_memoized (c\<lparr>api_url := tmp, lang := l\<rparr>))"

section \<open>Requests\<close>

text \<open>
  The HTTP session is the outside world.  A network answers the \<open>i\<close>-th request of a run
  (counted from 0) with the time the exchange took and either an exception of the
  transport, a body that decodes as JSON, or a body that does not.
\<close>

datatype reply = Json response | NotJson

type_synonym network = "nat \<Rightarrow> request \<Rightarrow> int \<times> (exc + reply)"

text \<open>
  \<open>_get_response\<close> and \<open>_post_response\<close>: the call of the session, with
  \<open>except JSONDecodeError: return {}\<close>.
\<close>

definition session_call ::
  "network \<Rightarrow> http_method \<Rightarrow> params \<Rightarrow> 'v client \<Rightarrow> (exc + response) \<times> 'v client" where
  "session_call net m ps c =
     (let rq = \<lparr>rq_method = m, rq_url = api_url c, rq_params = ps\<rparr>;
          c' = c\<lparr>now := now c + fst (net (length (sent c)) rq), sent := sent c @ [rq]\<rparr>
      in case snd (net (length (sent c)) rq) of
           Inl e \<Rightarrow> (Inl e, c')
         | Inr (Json r) \<Rightarrow> (Inr r, c')
         | Inr NotJson \<Rightarrow> (Inr (RObj empty_obj), c'))"

definition get_response ::
  "network \<Rightarrow> params \<Rightarrow> 'v client \<Rightarrow> (exc + response) \<times> 'v client" where
  "get_response net ps c = session_call net GET ps c"

definition post_response ::
  "network \<Rightarrow> params \<Rightarrow> 'v client \<Rightarrow> (exc + response) \<times> 'v client" where
  "post_response net ps c = session_call net POST ps c"

text \<open>
  \<open>wiki_request(params)\<close>: the format and the default action are written into \<open>params\<close>,
  the rate limiter sleeps until \<open>last_call + min_wait\<close> when that lies in the future, and
  after a request that returned the time of the call is recorded.
\<close>

definition wiki_request ::
  "network \<Rightarrow> params \<Rightarrow> 'v client \<Rightarrow> (exc + response) \<times> 'v client" where
  "wiki_request net params0 c =
     (let params1 = params0(''format'' \<mapsto> PStr ''json'');
          params = (if params1 ''action'' = None then params1(''action'' \<mapsto> PStr ''query'')
                    else params1);
          c1 = (case rate_limit_last_call c of
                  None \<Rightarrow> c
                | Some last_call \<Rightarrow>
                    if rate_limit c \<and> last_call + min_wait c > now c
                    then c\<lparr>now := last_call + min_wait c\<rparr> else c)
      in case get_response net params c1 of
           (Inl e, c2) \<Rightarrow> (Inl e, c2)
         | (Inr req, c2) \<Rightarrow>
             (Inr req, if rate_limit c2 then c2\<lparr>rate_limit_last_call := Some (now c2)\<rparr>
                       else c2))"

section \<open>Login and site information\<close>

text \<open>
  The login token of the reply to the token request: \<open>Inr None\<close> when the condition
  \<open>"query" in token_res and "tokens" in token_res["query"]\<close> fails, which leaves the local
  variable \<open>token\<close> unbound.
\<close>

fun login_token :: "response \<Rightarrow> exc + string option" where
  "login_token (RObj r) =
     (case r_query r of
        None \<Rightarrow> Inr None
      | Some q \<Rightarrow>
          (case q_tokens q of
             None \<Rightarrow> Inr None
           | Some None \<Rightarrow> Inl (KeyError ''logintoken'')
           | Some (Some t) \<Rightarrow> Inr (Some t)))"
| "login_token (RList term titles descs urls) =
     (if term = ''query'' then Inl TypeError else Inr None)"

definition login ::
  "network \<Rightarrow> string \<Rightarrow> string \<Rightarrow> bool \<Rightarrow> 'v client \<Rightarrow> (exc + bool) \<times> 'v client" where
  "login net username password strict c =
     (case get_response net
             [''action'' \<mapsto> PStr ''query'', ''meta'' \<mapsto> PStr ''tokens'',
              ''type'' \<mapsto> PStr ''login'', ''format'' \<mapsto> PStr ''json''] c of
        (Inl e, c1) \<Rightarrow> (Inl e, c1)
      | (Inr token_res, c1) \<Rightarrow>
          (case login_token token_res of
             Inl e \<Rightarrow> (Inl e, c1)
           | Inr None \<Rightarrow> (Inl (UnboundLocalError ''token''), c1)
           | Inr (Some token) \<Rightarrow>
               (case post_response net
                       [''action'' \<mapsto> PStr ''login'', ''lgname'' \<mapsto> PStr username,
                        ''lgpassword'' \<mapsto> PStr password, ''lgtoken'' \<mapsto> PStr token,
                        ''format'' \<mapsto> PStr ''json''] c1 of
                  (Inl e, c2) \<Rightarrow> (Inl e, c2)
                | (Inr (RList term titles descs urls), c2) \<Rightarrow> (Inl TypeError, c2)
                | (Inr (RObj res), c2) \<Rightarrow>
                    (case r_login res of
                       None \<Rightarrow> (Inl (KeyError ''login''), c2)
                     | Some lg \<Rightarrow>
                         (case l_result lg of
                            None \<Rightarrow> (Inl (KeyError ''result''), c2)
                          | Some result \<Rightarrow>
                              if result = ''Success''
                              then (Inr True, c2\<lparr>is_logged_in := True\<rparr>)
                              else if strict then
                                (case l_reason lg of
                                   None \<Rightarrow> (Inl (KeyError ''reason''), c2\<lparr>is_logged_in := False\<rparr>)
                                 | Some reason \<Rightarrow>
                                     (Inl (MediaWikiLoginError
                                            (''MediaWiki login failure: '' @ reason)),
                                      c2\<lparr>is_logged_in := False\<rparr>))
                              else (Inr False, c2\<lparr>is_logged_in := False\<rparr>))))))"

text \<open>\<open>s.split(sep)\<close> for a separator of one character.\<close>

fun split :: "char \<Rightarrow> string \<Rightarrow> string list" where
  "split sep [] = [[]]"
| "split sep (c # cs) =
     (if c = sep then [] # split sep cs
      else (case split sep cs of [] \<Rightarrow> [[c]] | w # ws \<Rightarrow> (c # w) # ws))"

text \<open>
  \<open>int(s)\<close> on code points below 256: white space around, an optional sign, then
  decimal digits with single underscores between them; anything else is a \<open>ValueError\<close>.
\<close>

definition digit_val :: "char \<Rightarrow> nat option" where
  "digit_val c = map_of (zip ''0123456789'' [0, 1, 2, 3, 4, 5, 6, 7, 8, 9]) c"

fun int_digits :: "nat \<Rightarrow> bool \<Rightarrow> string \<Rightarrow> nat option" where
  "int_digits acc after_digit [] = (if after_digit then Some acc else None)"
| "int_digits acc after_digit (c # cs) =
     (if c = CHR ''_'' then
        (if after_digit \<and> cs \<noteq> [] \<and> digit_val (hd cs) \<noteq> None then int_digits acc False cs
         else None)
      else (case digit_val c of
              None \<Rightarrow> None
            | Some d \<Rightarrow> int_digits (10 * acc + d) True cs))"

definition py_int :: "string \<Rightarrow> exc + int" where
  "py_int s =
     (let t = strip s;
          neg = startswith t ''-'';
          body = (if startswith t ''-'' \<or> startswith t ''+'' then drop 1 t else t)
      in case int_digits 0 False body of
           None \<Rightarrow> Inl (ValueError (''invalid literal for int() with base 10: '' @ s))
         | Some n \<Rightarrow> Inr (if neg then - int n else int n))"

fun py_ints :: "string list \<Rightarrow> exc + int list" where
  "py_ints [] = Inr []"
| "py_ints (x # xs) =
     (case py_int x of
        Inl e \<Rightarrow> Inl e
      | Inr i \<Rightarrow> (case py_ints xs of Inl e \<Rightarrow> Inl e | Inr is \<Rightarrow> Inr (i # is)))"

text \<open>
  The version tuple of a generator string such as \<open>"MediaWiki 1.35.0-wmf.5"\<close>:
  \<open>generator.split(" ")[1].split("-")[0].split(".")\<close>, every item through \<open>int\<close>.
\<close>

definition parse_version :: "string \<Rightarrow> exc + int list" where
  "parse_version g =
     (case split CHR '' '' g of
        w0 # w1 # ws \<Rightarrow> py_ints (split CHR ''.'' (hd (split CHR ''-'' w1)))
      | _ \<Rightarrow> Inl IndexError)"

text \<open>\<open>_get_site_info\<close>.  The slots are assigned in the order of the source, so an
  exception leaves the earlier assignments in place.\<close>

definition get_site_info :: "network \<Rightarrow> 'v client \<Rightarrow> (exc + unit) \<times> 'v client" where
  "get_site_info net c =
     (case wiki_request net
             [''meta'' \<mapsto> PStr ''siteinfo'', ''siprop'' \<mapsto> PStr ''extensions|general''] c of
        (Inl e, c1) \<Rightarrow> (Inl e, c1)
      | (Inr (RList term titles descs urls), c1) \<Rightarrow> (Inl AttributeError, c1)
      | (Inr (RObj response), c1) \<Rightarrow>
          (case r_query response of
             None \<Rightarrow> (Inl (MediaWikiException ''Missing query in response''), c1)
           | Some query \<Rightarrow>
               (case q_general query of
                  None \<Rightarrow> (Inl (MediaWikiException ''Missing query in response''), c1)
                | Some gen \<Rightarrow>
                    (case g_generator gen of
                       None \<Rightarrow> (Inl (KeyError ''generator''), c1)
                     | Some g \<Rightarrow>
                         (case parse_version g of
                            Inl e \<Rightarrow> (Inl e, c1)
                          | Inr major_minor \<Rightarrow>
                              (let c2 = c1\<lparr>api_version := Some major_minor,
                                          api_version_str :=
                                            Some (join ''.'' (map str_int major_minor))\<rparr>;
                                   tmp = (case g_server gen of None \<Rightarrow> [] | Some s \<Rightarrow> s)
                               in if tmp = []
                                  then (Inl (MediaWikiException ''Unable to parse base url''), c2)
                                  else
                                    (case (if startswith tmp ''http://''
                                              \<or> startswith tmp ''https://''
                                           then Inr tmp
                                           else (case g_base gen of
                                                   None \<Rightarrow> Inl (KeyError ''base'')
                                                 | Some b \<Rightarrow>
                                                     if startswith b ''https:''
                                                     then Inr (''https:'' @ tmp)
                                                     else Inr (''http:'' @ tmp))) of
                                       Inl e \<Rightarrow> (Inl e, c2)
                                     | Inr url \<Rightarrow>
                                         (case q_extensions query of
                                            None \<Rightarrow>
                                              (Inl (KeyError ''extensions''),
                                               c2\<lparr>base_url := Some url\<rparr>)
                                          | Some names \<Rightarrow>
                                              (Inr (),
                                               c2\<lparr>base_url := Some url,
                                                  extensions :=
                                                    Some (sort (remdups names))\<rparr>)))))))))"

section \<open>Changing the endpoint\<close>

text \<open>
  The module \<open>exceptions\<close> that declares the exception classes is not among the sources.
  Which of the library's other classes derive from \<open>MediaWikiException\<close>, and are therefore
  caught by \<open>except MediaWikiException\<close>, is the parameter \<open>derives\<close>; built-in exceptions
  and those of \<open>requests\<close> do not.
\<close>

fun isinstance_MediaWikiException :: "(exc \<Rightarrow> bool) \<Rightarrow> exc \<Rightarrow> bool" where
  "isinstance_MediaWikiException derives (MediaWikiException m) = True"
| "isinstance_MediaWikiException derives (PageError m) = derives (PageError m)"
| "isinstance_MediaWikiException derives (HTTPTimeoutError m) = derives (HTTPTimeoutError m)"
| "isinstance_MediaWikiException derives (MediaWikiGeoCoordError m) =
     derives (MediaWikiGeoCoordError m)"
| "isinstance_MediaWikiException derives (MediaWikiAPIURLError m) =
     derives (MediaWikiAPIURLError m)"
| "isinstance_MediaWikiException derives (MediaWikiCategoryTreeError m) =
     derives (MediaWikiCategoryTreeError m)"
| "isinstance_MediaWikiException derives (MediaWikiLoginError m) =
     derives (MediaWikiLoginError m)"
| "isinstance_MediaWikiException derives e = False"

text \<open>The handler of \<open>set_api_url\<close>: \<open>except (rex.ConnectTimeout, MediaWikiException)\<close>.\<close>

definition caught :: "(exc \<Rightarrow> bool) \<Rightarrow> exc \<Rightarrow> bool" where
  "caught derives e = (e = ConnectTimeout \<or> isinstance_MediaWikiException derives e)"

text \<open>The body of the \<open>try\<close> statement of \<open>set_api_url\<close>.\<close>

definition validate_endpoint ::
  "network \<Rightarrow> string option \<Rightarrow> string option \<Rightarrow> 'v client \<Rightarrow> (exc + unit) \<times> 'v client" where
  "validate_endpoint net username password c =
     (case (case (username, password) of
              (Some u, Some p) \<Rightarrow> login net u p True c
            | _ \<Rightarrow> (Inr True, c)) of
        (Inl e, c1) \<Rightarrow> (Inl e, c1)
      | (Inr b, c1) \<Rightarrow>
          (case get_site_info net c1 of
             (Inl e, c2) \<Rightarrow> (Inl e, c2)
           | (Inr u, c2) \<Rightarrow>
               (Inr (), c2\<lparr>supported_languages := None, available_languages := None\<rparr>)))"

definition set_api_url ::
  "(exc \<Rightarrow> bool) \<Rightarrow> network \<Rightarrow> string \<Rightarrow> string \<Rightarrow> string option \<Rightarrow> string option
     \<Rightarrow> 'v client \<Rightarrow> (exc + unit) \<times> 'v client" where
  "set_api_url derives net api_url0 lang0 username password c =
     (let old_api_url = api_url c;
          old_lang = lang c;
          c1 = c\<lparr>lang := lower lang0\<rparr>
      in case format_lang api_url0 (lang c1) of
           Inl e \<Rightarrow> (Inl e, c1)
         | Inr url \<Rightarrow>
             (case validate_endpoint net username password
                     (c1\<lparr>api_url := url, is_logged_in := False\<rparr>) of
                (Inl e, c2) \<Rightarrow>
                  if caught derives e
                  then (Inl (MediaWikiAPIURLError api_url0),
                        c2\<lparr>api_url := old_api_url, lang := old_lang\<rparr>)
                  else (Inl e, c2)
              | (Inr u, c2) \<Rightarrow> (Inr (), clear_memoized c2)))"

section \<open>Category members and open search\<close>

text \<open>
  The continuation token of a reply: \<open>query-continue.categorymembers\<close> when the reply has a
  non-empty \<open>query-continue\<close> with that key, the generic \<open>continue\<close> otherwise; \<open>None\<close> is
  the \<open>False\<close> that \<open>raw_res.get(..., False)\<close> returns for a missing key.
\<close>

definition continuation :: "response_obj \<Rightarrow> params option" where
  "continuation r =
     (case r_query_continue r of
        None \<Rightarrow> r_continue r
      | Some qc \<Rightarrow> (case qc ''categorymembers'' of None \<Rightarrow> r_continue r | Some t \<Rightarrow> Some t))"

text \<open>The name kept for a subcategory: its title without the category prefix and the colon.\<close>

definition subcat_name :: "string \<Rightarrow> string \<Rightarrow> string" where
  "subcat_name prefix tmp =
     (if startswith tmp prefix then drop (length prefix + 1) tmp else tmp)"

text \<open>The \<open>for rec in ...\<close> loop that appends to \<open>pages\<close> and \<open>subcats\<close>.\<close>

fun collect :: "string \<Rightarrow> member list \<Rightarrow> string list \<times> string list \<Rightarrow> string list \<times> string list" where
  "collect prefix [] acc = acc"
| "collect prefix (rec # recs) (pages, subcats) =
     (if rec_type rec = ''page'' \<or> rec_type rec = ''file''
      then collect prefix recs (pages @ [rec_title rec], subcats)
      else if rec_type rec = ''subcat''
      then collect prefix recs (pages, subcats @ [subcat_name prefix (rec_title rec)])
      else collect prefix recs (pages, subcats))"

definition max_pull :: int where
  "max_pull = 500"

definition search_params :: "string \<Rightarrow> bool \<Rightarrow> int \<Rightarrow> string \<Rightarrow> params" where
  "search_params prefix subcategories cmlimit category =
     [''list'' \<mapsto> PStr ''categorymembers'',
      ''cmprop'' \<mapsto> PStr ''ids|title|type'',
      ''cmtype'' \<mapsto> PStr (if subcategories then ''page|subcat|file'' else ''page|file''),
      ''cmlimit'' \<mapsto> PInt cmlimit,
      ''cmtitle'' \<mapsto> PStr (prefix @ '':'' @ category)]"

text \<open>
  The variables of the pagination loop of \<open>categorymembers\<close>; of \<open>search_params\<close> only the
  entry \<open>cmlimit\<close> changes.
\<close>

record loop_state =
  ls_cmlimit :: int
  ls_pages :: "string list"
  ls_subcats :: "string list"
  ls_returned :: int
  ls_last_cont :: params

text \<open>
  One pass through the body of \<open>while not finished\<close>.  The result is an exception, or the
  new variables together with a flag that says whether the loop is left (by \<open>break\<close> or by
  \<open>finished = True\<close>).
\<close>

definition cm_iteration ::
  "network \<Rightarrow> string \<Rightarrow> bool \<Rightarrow> int option \<Rightarrow> loop_state \<Rightarrow> 'v client
     \<Rightarrow> (exc + bool \<times> loop_state) \<times> 'v client" where
  "cm_iteration net category subcategories results ls c =
     (case wiki_request net
             (search_params (cat_prefix c) subcategories (ls_cmlimit ls) category
                ++ ls_last_cont ls) c of
        (Inl e, c1) \<Rightarrow> (Inl e, c1)
      | (Inr raw_res, c1) \<Rightarrow>
          (case check_error_response raw_res category of
             Inl e \<Rightarrow> (Inl e, c1)
           | Inr u \<Rightarrow>
               (case raw_res of
                  RList term titles descs urls \<Rightarrow> (Inl TypeError, c1)
                | RObj r \<Rightarrow>
                    (case r_query r of
                       None \<Rightarrow> (Inl (KeyError ''query''), c1)
                     | Some q \<Rightarrow>
                         (case q_categorymembers q of
                            None \<Rightarrow> (Inl (KeyError ''categorymembers''), c1)
                          | Some recs \<Rightarrow>
                              (let current_pull = int (length recs);
                                   ls1 = ls\<lparr>ls_pages :=
                                              fst (collect (cat_prefix c1) recs
                                                     (ls_pages ls, ls_subcats ls)),
                                            ls_subcats :=
                                              snd (collect (cat_prefix c1) recs
                                                     (ls_pages ls, ls_subcats ls))\<rparr>
                               in case continuation r of
                                    None \<Rightarrow> (Inr (True, ls1), c1)
                                  | Some cont \<Rightarrow>
                                      if ls_last_cont ls = cont then (Inr (True, ls1), c1)
                                      else
                                        (let returned_results = ls_returned ls + current_pull;
                                             ls2 = ls1\<lparr>ls_returned := returned_results\<rparr>;
                                             go_on = (case results of
                                                        None \<Rightarrow> True
                                                      | Some n \<Rightarrow> n - returned_results > 0);
                                             ls3 = (if go_on then ls2\<lparr>ls_last_cont := cont\<rparr>
                                                    else ls2);
                                             ls4 = (case results of
                                                      None \<Rightarrow> ls3
                                                    | Some n \<Rightarrow>
                                                        if n - returned_results < max_pull
                                                        then ls3\<lparr>ls_cmlimit :=
                                                                   n - returned_results\<rparr>
                                                        else ls3)
                                         in (Inr (\<not> go_on, ls4), c1))))))))"

text \<open>
  The loop.  The API decides how long it runs, so the model counts the passes it may still
  make; \<open>None\<close> is the run that has not left the loop when the count is used up.
\<close>

fun cm_loop ::
  "nat \<Rightarrow> network \<Rightarrow> string \<Rightarrow> bool \<Rightarrow> int option \<Rightarrow> loop_state \<Rightarrow> 'v client
     \<Rightarrow> (exc + loop_state) option \<times> 'v client" where
  "cm_loop 0 net category subcategories results ls c = (None, c)"
| "cm_loop (Suc n) net category subcategories results ls c =
     (case cm_iteration net category subcategories results ls c of
        (Inl e, c1) \<Rightarrow> (Some (Inl e), c1)
      | (Inr (True, ls1), c1) \<Rightarrow> (Some (Inr ls1), c1)
      | (Inr (False, ls1), c1) \<Rightarrow> cm_loop n net category subcategories results ls1 c1)"

datatype members = Both "string list" "string list" | Pages "string list"

text \<open>
  The function \<open>categorymembers\<close> that the decorator wraps; \<open>results = None\<close> asks for all
  members.
\<close>

definition categorymembers ::
  "nat \<Rightarrow> network \<Rightarrow> string \<Rightarrow> int option \<Rightarrow> bool \<Rightarrow> 'v client
     \<Rightarrow> (exc + members) option \<times> 'v client" where
  "categorymembers fuel net category results subcategories c =
     (case check_query (Some category) ''Category must be specified'' of
        Inl e \<Rightarrow> (Some (Inl e), c)
      | Inr u \<Rightarrow>
          (case cm_loop fuel net category subcategories results
                  \<lparr>ls_cmlimit = (case results of None \<Rightarrow> max_pull | Some n \<Rightarrow> min n max_pull),
                   ls_pages = [], ls_subcats = [], ls_returned = 0,
                   ls_last_cont = Map.empty\<rparr> c of
             (None, c1) \<Rightarrow> (None, c1)
           | (Some (Inl e), c1) \<Rightarrow> (Some (Inl e), c1)
           | (Some (Inr ls), c1) \<Rightarrow>
               (Some (Inr (if subcategories then Both (ls_pages ls) (ls_subcats ls)
                           else Pages (ls_pages ls))), c1)))"

text \<open>
  The function \<open>opensearch\<close> that the decorator wraps.  \<open>results[1]\<close> on a mapping is a
  \<open>KeyError\<close>; a description or URL list shorter than the title list is an \<open>IndexError\<close>.
\<close>

definition opensearch ::
  "network \<Rightarrow> string \<Rightarrow> int option \<Rightarrow> bool \<Rightarrow> 'v client
     \<Rightarrow> (exc + (string \<times> string \<times> string) list) \<times> 'v client" where
  "opensearch net query results redirect c =
     (case check_query (Some query) ''Query must be specified'' of
        Inl e \<Rightarrow> (Inl e, c)
      | Inr u \<Rightarrow>
          (case wiki_request net
                  [''action'' \<mapsto> PStr ''opensearch'',
                   ''search'' \<mapsto> PStr query,
                   ''limit'' \<mapsto> PInt (case results of None \<Rightarrow> max_pull
                                        | Some n \<Rightarrow> min n max_pull),
                   ''redirects'' \<mapsto> PStr (if redirect then ''resolve'' else ''return''),
                   ''warningsaserror'' \<mapsto> PBool True,
                   ''namespace'' \<mapsto> PStr ''''] c of
             (Inl e, c1) \<Rightarrow> (Inl e, c1)
           | (Inr res, c1) \<Rightarrow>
               (case check_error_response res query of
                  Inl e \<Rightarrow> (Inl e, c1)
                | Inr u \<Rightarrow>
                    (case res of
                       RObj r \<Rightarrow> (Inl (KeyError ''1''), c1)
                     | RList term titles descs urls \<Rightarrow>
                         if length descs < length titles \<or> length urls < length titles
                         then (Inl IndexError, c1)
                         else (Inr (zip titles (zip descs urls)), c1)))))"

text \<open>
  A well-behaved category listing, for the claims that speak of one: the members \<open>src\<close> of
  the category are served in order, at most \<open>cmlimit\<close> per reply, and a reply that does not
  reach the end of the list carries the offset of the next member as \<open>cmcontinue\<close>.
\<close>

definition source_api :: "member list \<Rightarrow> network" where
  "source_api src i rq =
     (let off = (case rq_params rq ''cmcontinue'' of Some (PInt k) \<Rightarrow> nat k | _ \<Rightarrow> 0);
          lim = (case rq_params rq ''cmlimit'' of Some (PInt l) \<Rightarrow> nat l | _ \<Rightarrow> 0)
      in (1, Inr (Json (RObj
            \<lparr>r_error = None,
             r_query = Some \<lparr>q_categorymembers = Some (take lim (drop off src)),
                             q_general = None, q_extensions = None, q_tokens = None\<rparr>,
             r_query_continue = None,
             r_continue = (if off + lim < length src
                           then Some [''cmcontinue'' \<mapsto> PInt (int (off + lim)),
                                      ''continue'' \<mapsto> PStr ''-||'']
                           else None),
             r_login = None\<rparr>))))"

text \<open>The pages and the subcategory names among some members, as \<open>collect\<close> gathers them.\<close>

definition pages_of :: "member list \<Rightarrow> string list" where
  "pages_of recs =
     map rec_title (filter (\<lambda>r. rec_type r = ''page'' \<or> rec_type r = ''file'') recs)"

definition subcats_of :: "string \<Rightarrow> member list \<Rightarrow> string list" where
  "subcats_of prefix recs =
     map (\<lambda>r. subcat_name prefix (rec_title r)) (filter (\<lambda>r. rec_type r = ''subcat'') recs)"

text \<open>The \<open>cmlimit\<close> of a request that was sent.\<close>

definition cmlimit_of :: "request \<Rightarrow> int" where
  "cmlimit_of rq = (case rq_params rq ''cmlimit'' of Some (PInt l) \<Rightarrow> l | _ \<Rightarrow> 0)"

text \<open>
  The request that a pass of the loop sends, and what it means for the reply to be usable:
  no error object, and a member list under \<open>query.categorymembers\<close>.
\<close>

definition pass_request ::
  "network \<Rightarrow> string \<Rightarrow> bool \<Rightarrow> loop_state \<Rightarrow> 'v client \<Rightarrow> (exc + response) \<times> 'v client" where
  "pass_request net category subcategories ls c =
     wiki_request net
       (search_params (cat_prefix c) subcategories (ls_cmlimit ls) category ++ ls_last_cont ls) c"

definition good_reply :: "response_obj \<Rightarrow> member list \<Rightarrow> bool" where
  "good_reply r recs =
     (r_error r = None
      \<and> map_option q_categorymembers (r_query r) = Some (Some recs))"

text \<open>
  The member types named by the parameter \<open>cmtype\<close> of the request, and the token that
  \<open>source_api\<close> hands out at offset \<open>k\<close>.
\<close>

definition requested_types :: "bool \<Rightarrow> string list" where
  "requested_types subcategories =
     (if subcategories then [''page'', ''subcat'', ''file''] else [''page'', ''file''])"

definition offset_token :: "nat \<Rightarrow> params" where
  "offset_token k = [''cmcontinue'' \<mapsto> PInt (int k), ''continue'' \<mapsto> PStr ''-||'']"

text \<open>
  The variables of the loop when it has received the first \<open>k\<close> members of \<open>src\<close> and
  \<open>results\<close> is \<open>N\<close>.
\<close>

definition paging_state :: "string \<Rightarrow> member list \<Rightarrow> int \<Rightarrow> nat \<Rightarrow> loop_state" where
  "paging_state prefix src N k =
     \<lparr>ls_cmlimit = min (N - int k) max_pull,
      ls_pages = pages_of (take k src),
      ls_subcats = subcats_of prefix (take k src),
      ls_returned = int k,
      ls_last_cont = (if k = 0 then Map.empty else offset_token k)\<rparr>"

section \<open>Memoization\<close>

text \<open>
  What the decorator knows of the function it wraps: its name and, from
  \<open>parse_all_arguments\<close>, the parameters that have a default with that default, in the order
  of the signature.
\<close>

record op_spec =
  op_name :: string
  op_defaults :: "(string \<times> pyval) list"

text \<open>
  The key of a call: the positional arguments after \<open>self\<close>, then \<open>(name: value)\<close> for every
  default, the keyword arguments of the call written over the defaults, sorted by name;
  all through \<open>str\<close> and joined by \<open>" - "\<close>.
\<close>

definition build_key :: "pyval list \<Rightarrow> (string \<times> pyval) list \<Rightarrow> (string \<times> pyval) list \<Rightarrow> string" where
  "build_key args kwargs dflt =
     join '' - ''
       (map py_str args
        @ map (\<lambda>(k, v). ''('' @ k @ '': '' @ py_str v @ '')'')
            (sort_key fst (fold (\<lambda>(k, v). AList.update k v) kwargs dflt)))"

text \<open>
  The block \<open>if func.__name__ not in cache\<close>: an empty dictionary for the operation, and
  its defaults under \<open>"defaults"\<close>.
\<close>

definition register :: "op_spec \<Rightarrow> 'v memo \<Rightarrow> 'v memo" where
  "register op m =
     (if m_entries m (op_name op) = None
      then \<lparr>m_entries = (m_entries m)(op_name op \<mapsto> Map.empty),
            m_defaults = Some ((case m_defaults m of None \<Rightarrow> Map.empty | Some d \<Rightarrow> d)
                                 (op_name op \<mapsto> op_defaults op))\<rparr>
      else m)"

text \<open>
  \<open>cache[func.__name__][key] = (t, v)\<close>, evaluated after \<open>func\<close> has returned, in the cache
  as \<open>func\<close> left it.
\<close>

definition store :: "string \<Rightarrow> string \<Rightarrow> int \<times> 'v \<Rightarrow> 'v client \<Rightarrow> exc + 'v client" where
  "store name key tv c =
     (case cache c of
        None \<Rightarrow> Inl (KeyError name)
      | Some m \<Rightarrow>
          (case m_entries m name of
             None \<Rightarrow> Inl (KeyError name)
           | Some part \<Rightarrow>
               Inr (c\<lparr>cache := Some (m\<lparr>m_entries := (m_entries m)(name \<mapsto> part(key \<mapsto> tv))\<rparr>)\<rparr>)))"

text \<open>The two places that run \<open>func\<close> and store \<open>(time.time(), func(...))\<close>.\<close>

definition compute_and_store ::
  "string \<Rightarrow> string \<Rightarrow> ('v client \<Rightarrow> (exc + 'v) \<times> 'v client) \<Rightarrow> 'v client
     \<Rightarrow> (exc + 'v) \<times> 'v client" where
  "compute_and_store name key run c =
     (case run c of
        (Inl e, c1) \<Rightarrow> (Inl e, c1)
      | (Inr v, c1) \<Rightarrow>
          (case store name key (now c, v) c1 of
             Inl e \<Rightarrow> (Inl e, c1)
           | Inr c2 \<Rightarrow> (Inr v, c2)))"

text \<open>
  The wrapper that \<open>memoize(func)\<close> returns, applied to \<open>self\<close> (the client), the other
  positional arguments and the keyword arguments.  \<open>func args kwargs\<close> is the call
  \<open>func(*args, **kwargs)\<close>.
\<close>

definition memoize ::
  "op_spec \<Rightarrow> (pyval list \<Rightarrow> (string \<times> pyval) list \<Rightarrow> 'v client \<Rightarrow> (exc + 'v) \<times> 'v client)
     \<Rightarrow> pyval list \<Rightarrow> (string \<times> pyval) list \<Rightarrow> 'v client \<Rightarrow> (exc + 'v) \<times> 'v client" where
  "memoize op func args kwargs c =
     (case cache c of
        None \<Rightarrow> (Inl AttributeError, c)
      | Some m0 \<Rightarrow>
          if \<not> use_cache c then func args kwargs c
          else
            (let refresh = refresh_interval c;
                 m = register op m0;
                 c0 = c\<lparr>cache := Some m\<rparr>
             in case (case m_defaults m of None \<Rightarrow> None | Some d \<Rightarrow> d (op_name op)) of
                  None \<Rightarrow> (Inl (KeyError (op_name op)), c0)
                | Some dflt \<Rightarrow>
                    (let key = build_key args kwargs dflt in
                     case m_entries m (op_name op) of
                       None \<Rightarrow> (Inl (KeyError (op_name op)), c0)
                     | Some part \<Rightarrow>
                         (case part key of
                            None \<Rightarrow>
                              compute_and_store (op_name op) key (func args kwargs) c0
                          | Some tmp \<Rightarrow>
                              (case refresh of
                                 None \<Rightarrow> (Inr (snd tmp), c0)
                               | Some r \<Rightarrow>
                                   if now c0 - fst tmp > r
                                   then compute_and_store (op_name op) key
                                          (func args kwargs) c0
                                   else (Inr (snd tmp), c0))))))"

text \<open>The decorated method \<open>opensearch\<close>, called as \<open>opensearch(query)\<close>.\<close>

definition opensearch_op :: op_spec where
  "opensearch_op =
     \<lparr>op_name = ''opensearch'',
      op_defaults = [(''results'', PInt 10), (''redirect'', PBool True)]\<rparr>"

definition opensearch_memoized ::
  "network \<Rightarrow> string \<Rightarrow> (string \<times> string \<times> string) list client
     \<Rightarrow> (exc + (string \<times> string \<times> string) list) \<times> (string \<times> string \<times> string) list client" where
  "opensearch_memoized net query c =
     memoize opensearch_op (\<lambda>args kwargs. opensearch net query (Some 10) True)
       [PStr query] [] c"

text \<open>
  The client once the wrapper has registered the operation, and the key that the wrapper
  builds for a call in a given state of the cache (\<open>None\<close> when the defaults of the
  operation are missing, which is a \<open>KeyError\<close>).
\<close>

definition registered :: "op_spec \<Rightarrow> 'v client \<Rightarrow> 'v client" where
  "registered op c = c\<lparr>cache := map_option (register op) (cache c)\<rparr>"

definition call_key ::
  "op_spec \<Rightarrow> pyval list \<Rightarrow> (string \<times> pyval) list \<Rightarrow> 'v client \<Rightarrow> string option" where
  "call_key op args kwargs c =
     map_option (build_key args kwargs) (cached_defaults (registered op c) (op_name op))"

section \<open>The category tree\<close>

text \<open>
  The value stored under a category: its level, its pages, its parent categories, and the
  dictionary of its subcategories, each of them a node of its own or \<open>None\<close>.  A dictionary
  is a list of keys and values in the order of insertion; assigning to a key that is
  present replaces its value in place.
\<close>

datatype node =
  Node (n_depth: nat) (n_links: "string list") (n_parents: "string list")
       (n_subs: "(string \<times> node option) list")

text \<open>
  The tree builder calls two methods of the client: \<open>page(title)\<close>, whose result is an
  object of the class \<open>MediaWikiPage\<close> (not among the sources) that is read only through
  its property \<open>categories\<close>, and the decorated \<open>categorymembers(cat, results=None,
  subcategories=True)\<close>.  Both are parameters here: a wiki gives, for the \<open>i\<close>-th of these
  calls of a run (counted from 0), what it returns or raises.
\<close>

datatype page_obj = PageObj (p_title: string) (p_categories: "exc + string list")

record wiki =
  page_call :: "nat \<Rightarrow> string \<Rightarrow> exc + page_obj"
  members_call :: "nat \<Rightarrow> string \<Rightarrow> exc + string list \<times> string list"

datatype call = PageCall string | MembersCall string

text \<open>
  The dictionaries \<open>categories\<close> and \<open>links\<close> that one run of \<open>categorytree\<close> shares among
  its recursive calls, the calls made so far, and the time spent in \<open>time.sleep\<close>.
\<close>

record tree_state =
  ts_categories :: "string \<rightharpoonup> page_obj"
  ts_links :: "string \<rightharpoonup> string list \<times> string list"
  ts_calls :: "call list"
  ts_slept :: nat

text \<open>The body of the \<open>try\<close> statement of \<open>__cat_tree_rec\<close>, up to \<open>break\<close>.\<close>

definition attempt ::
  "wiki \<Rightarrow> string \<Rightarrow> string \<Rightarrow> tree_state \<Rightarrow> (exc + string list) \<times> tree_state" where
  "attempt w prefix cat s =
     (let title = prefix @ '':'' @ cat;
          s1 = s\<lparr>ts_calls := ts_calls s @ [PageCall title]\<rparr>
      in case page_call w (length (ts_calls s)) title of
           Inl e \<Rightarrow> (Inl e, s1)
         | Inr pag \<Rightarrow>
             (let s2 = s1\<lparr>ts_categories := (ts_categories s1)(cat \<mapsto> pag)\<rparr>
              in case p_categories pag of
                   Inl e \<Rightarrow> (Inl e, s2)
                 | Inr parent_cats \<Rightarrow>
                     (let s3 = s2\<lparr>ts_calls := ts_calls s2 @ [MembersCall cat]\<rparr>
                      in case members_call w (length (ts_calls s2)) cat of
                           Inl e \<Rightarrow> (Inl e, s3)
                         | Inr lk \<Rightarrow>
                             (Inr parent_cats,
                              s3\<lparr>ts_links := (ts_links s3)(cat \<mapsto> lk)\<rparr>))))"

fun is_PageError :: "exc \<Rightarrow> bool" where
  "is_PageError (PageError t) = True"
| "is_PageError e = False"

text \<open>
  The loop \<open>while True\<close> around the \<open>try\<close> statement, entered with \<open>tries = 0\<close>.  The
  handlers are taken in the order of the source: \<open>PageError\<close>, \<open>KeyboardInterrupt\<close>, then
  \<open>Exception\<close>, which every other modelled exception is an instance of.
\<close>

function fetch_category ::
  "wiki \<Rightarrow> string \<Rightarrow> string \<Rightarrow> nat \<Rightarrow> tree_state \<Rightarrow> (exc + string list) \<times> tree_state" where
  "fetch_category w prefix cat tries s =
     (if tries > 10 then (Inl (MediaWikiCategoryTreeError cat), s)
      else (case attempt w prefix cat s of
              (Inr parent_cats, s1) \<Rightarrow> (Inr parent_cats, s1)
            | (Inl e, s1) \<Rightarrow>
                if is_PageError e then (Inl (PageError (prefix @ '':'' @ cat)), s1)
                else if e = KeyboardInterrupt then (Inl KeyboardInterrupt, s1)
                else fetch_category w prefix cat (tries + 1)
                       (s1\<lparr>ts_slept := ts_slept s1 + 1\<rparr>)))"
  by pat_completeness auto
termination
  by (relation "measure (\<lambda>(w, prefix, cat, tries, s). 11 - tries)") auto

text \<open>The subcategories of a node at the depth limit: every name with the value \<open>None\<close>.\<close>

definition placeholders :: "string list \<Rightarrow> (string \<times> node option) list" where
  "placeholders ctgs = fold (\<lambda>ctg tree. AList.update ctg None tree) ctgs []"

text \<open>The test \<open>depth and level >= depth\<close>; \<open>depth\<close> is \<open>None\<close> or an integer.\<close>

definition at_limit :: "int option \<Rightarrow> nat \<Rightarrow> bool" where
  "at_limit depth level = (case depth of None \<Rightarrow> False | Some d \<Rightarrow> d \<noteq> 0 \<and> d \<le> int level)"

text \<open>
  \<open>__cat_tree_rec(cat, depth, tree, level, categories, links)\<close> returns the node that the
  source stores in \<open>tree[cat]\<close>; \<open>expand_subcats\<close> is its loop \<open>for ctg in links[cat][1]\<close>
  of recursive calls, which fills the dictionary \<open>tree\<close> of subcategories.  Without a depth
  limit the recursion follows the category graph for as long as that goes on, so the model
  counts the nested calls it may still make; \<open>None\<close> is the run that needs more.
\<close>

fun cat_tree_rec ::
    "nat \<Rightarrow> wiki \<Rightarrow> string \<Rightarrow> string \<Rightarrow> int option \<Rightarrow> nat \<Rightarrow> tree_state
       \<Rightarrow> (exc + node) option \<times> tree_state"
  and expand_subcats ::
    "nat \<Rightarrow> wiki \<Rightarrow> string \<Rightarrow> string list \<Rightarrow> int option \<Rightarrow> nat
       \<Rightarrow> (string \<times> node option) list \<Rightarrow> tree_state
       \<Rightarrow> (exc + (string \<times> node option) list) option \<times> tree_state" where
  "cat_tree_rec 0 w prefix cat depth level s = (None, s)"
| "cat_tree_rec (Suc n) w prefix cat depth level s =
     (case (case ts_categories s cat of
              None \<Rightarrow> fetch_category w prefix cat 0 s
            | Some pag \<Rightarrow> (p_categories pag, s)) of
        (Inl e, s1) \<Rightarrow> (Some (Inl e), s1)
      | (Inr parent_cats, s1) \<Rightarrow>
          (case ts_links s1 cat of
             None \<Rightarrow> (Some (Inl (KeyError cat)), s1)
           | Some lk \<Rightarrow>
               if at_limit depth level
               then (Some (Inr (Node level (fst lk) parent_cats (placeholders (snd lk)))), s1)
               else (case expand_subcats n w prefix (snd lk) depth (level + 1) [] s1 of
                       (None, s2) \<Rightarrow> (None, s2)
                     | (Some (Inl e), s2) \<Rightarrow> (Some (Inl e), s2)
                     | (Some (Inr subs), s2) \<Rightarrow>
                         (Some (Inr (Node level (fst lk) parent_cats subs)), s2))))"
| "expand_subcats n w prefix [] depth level tree s = (Some (Inr tree), s)"
| "expand_subcats n w prefix (ctg # ctgs) depth level tree s =
     (case cat_tree_rec n w prefix ctg depth level s of
        (None, s1) \<Rightarrow> (None, s1)
      | (Some (Inl e), s1) \<Rightarrow> (Some (Inl e), s1)
      | (Some (Inr nd), s1) \<Rightarrow>
          expand_subcats n w prefix ctgs depth level (AList.update ctg (Some nd) tree) s1)"

text \<open>The argument \<open>category\<close> of \<open>categorytree\<close>: one name or a list of names.\<close>

datatype category_arg = Single "string option" | Many "string option list"

text \<open>\<open>str(category)\<close>, which the first message of the verification quotes.\<close>

definition repr_name :: "string option \<Rightarrow> string" where
  "repr_name x = (case x of None \<Rightarrow> ''None'' | Some s \<Rightarrow> py_repr s)"

fun str_category :: "category_arg \<Rightarrow> string" where
  "str_category (Single None) = ''None''"
| "str_category (Single (Some s)) = s"
| "str_category (Many xs) = ''['' @ join '', '' (map repr_name xs) @ '']''"

text \<open>The two messages of \<open>__category_parameter_verification\<close>.\<close>

definition category_message :: "category_arg \<Rightarrow> string" where
  "category_message category =
     ''CategoryTree: Parameter 'category' must either be a list of one or more categories or a string; provided: ''
     @ [CHR 0x27] @ str_category category @ [CHR 0x27]"

definition depth_message :: string where
  "depth_message =
     ''CategoryTree: Parameter 'depth' must be either None (for the full tree) or be greater than 0''"

text \<open>\<open>__category_parameter_verification(cats, depth, category)\<close>.\<close>

definition category_parameter_verification ::
  "string option list \<Rightarrow> int option \<Rightarrow> category_arg \<Rightarrow> exc + unit" where
  "category_parameter_verification cats depth category =
     (if length cats = 1 \<and> (hd cats = None \<or> hd cats = Some [])
      then Inl (ValueError (category_message category))
      else if (case depth of None \<Rightarrow> False | Some d \<Rightarrow> d < 1)
      then Inl (ValueError depth_message)
      else Inr ())"

text \<open>The names that \<open>[x for x in cats if x]\<close> keeps.\<close>

fun truthy_names :: "string option list \<Rightarrow> string list" where
  "truthy_names [] = []"
| "truthy_names (None # xs) = truthy_names xs"
| "truthy_names (Some x # xs) = (if x = [] then truthy_names xs else x # truthy_names xs)"

text \<open>
  \<open>categorytree(category, depth)\<close>.  The dictionaries \<open>categories\<close> and \<open>links\<close> start empty
  in every run.
\<close>

definition categorytree ::
  "nat \<Rightarrow> wiki \<Rightarrow> string \<Rightarrow> category_arg \<Rightarrow> int option \<Rightarrow> tree_state
     \<Rightarrow> (exc + (string \<times> node option) list) option \<times> tree_state" where
  "categorytree fuel w prefix category depth s =
     (let cats = (case category of Single x \<Rightarrow> [x] | Many xs \<Rightarrow> xs)
      in case category_parameter_verification cats depth category of
           Inl e \<Rightarrow> (Some (Inl e), s)
         | Inr u \<Rightarrow>
             expand_subcats fuel w prefix (truthy_names cats) depth 0 []
               (s\<lparr>ts_categories := Map.empty, ts_links := Map.empty\<rparr>))"

text \<open>
  The shape that a depth limit \<open>d\<close> gives a node: below the limit every subcategory is a
  node one level down, of that shape again; at the limit every subcategory is \<open>None\<close>.
\<close>

fun shape :: "int \<Rightarrow> node \<Rightarrow> bool" where
  "shape d (Node l ls ps subs) =
     list_all (\<lambda>(c, v). case v of
                          None \<Rightarrow> d \<le> int l
                        | Some nd \<Rightarrow> int l < d \<and> n_depth nd = l + 1 \<and> shape d nd) subs"

text \<open>An exception that the loop of \<open>fetch_category\<close> answers with a new attempt.\<close>

definition retryable :: "exc \<Rightarrow> bool" where
  "retryable e = (\<not> is_PageError e \<and> e \<noteq> KeyboardInterrupt)"

text \<open>
  The condition of \<open>shape\<close> on one entry of the subcategories of a node at level \<open>l\<close>, and
  two facts about a state of the run that the builder keeps: \<open>links\<close> has entries only for
  categories that \<open>categories\<close> has, and an entry of \<open>links\<close>, once made, stays.
\<close>

definition entry_shape :: "int \<Rightarrow> nat \<Rightarrow> string \<times> node option \<Rightarrow> bool" where
  "entry_shape d l e =
     (case snd e of
        None \<Rightarrow> d \<le> int l
      | Some nd \<Rightarrow> int l < d \<and> n_depth nd = l + 1 \<and> shape d nd)"

definition links_known :: "tree_state \<Rightarrow> bool" where
  "links_known s = (\<forall>c. ts_links s c \<noteq> None \<longrightarrow> ts_categories s c \<noteq> None)"

definition extends :: "tree_state \<Rightarrow> tree_state \<Rightarrow> bool" where
  "extends s s' =
     (links_known s' \<and> (\<forall>c lk. ts_links s c = Some lk \<longrightarrow> ts_links s' c = Some lk))"

text \<open>The calls that resolving the category \<open>cat\<close> may make.\<close>

definition calls_for :: "string \<Rightarrow> string \<Rightarrow> call set" where
  "calls_for prefix cat = {PageCall (prefix @ '':'' @ cat), MembersCall cat}"

section \<open>Example inputs\<close>

text \<open>
  An English Wikipedia client that has one memoized \<open>suggest\<close> result, used to run the
  operations on concrete data.
\<close>

definition client1 :: "string client" where
  "client1 = \<lparr>lang = ''en'', api_url = ''https://en.wikipedia.org/w/api.php'',
     cat_prefix = ''Category'', rate_limit = False, rate_limit_last_call = Some 7,
     min_wait = 50, api_version = None, api_version_str = None, base_url = None,
     extensions = None, supported_languages = None, available_languages = None,
     cache = Some \<lparr>m_entries = [''suggest'' \<mapsto> [''chess'' \<mapsto> (3, ''Chess'')]],
                    m_defaults = Some [''suggest'' \<mapsto> []]\<rparr>,
     refresh_interval = None, use_cache = True, is_logged_in = False, now = 10, sent = []\<rparr>"

text \<open>
  A hierarchy in which no other class of the library derives from \<open>MediaWikiException\<close>,
  a host that refuses every connection, and a site that answers the site-information
  request but has no \<open>server\<close> entry.
\<close>

definition derives_none :: "exc \<Rightarrow> bool" where
  "derives_none e = False"

definition net_refused :: network where
  "net_refused i rq = (1, Inl (RequestException ''ConnectionError''))"

definition net_no_server :: network where
  "net_no_server i rq =
     (1, Inr (Json (RObj (empty_obj\<lparr>r_query := Some
        \<lparr>q_categorymembers = None,
         q_general = Some \<lparr>g_generator = Some ''MediaWiki 1.35.0-wmf.5'', g_server = None,
                           g_base = None\<rparr>,
         q_extensions = Some [], q_tokens = None\<rparr>\<rparr>))))"

text \<open>
  An API that answers every request with the page \<open>P\<close> and the same continuation token.
\<close>

definition net_stuck :: network where
  "net_stuck i rq =
     (1, Inr (Json (RObj
        \<lparr>r_error = None,
         r_query = Some \<lparr>q_categorymembers = Some [\<lparr>rec_type = ''page'', rec_title = ''P''\<rparr>],
                         q_general = None, q_extensions = None, q_tokens = None\<rparr>,
         r_query_continue = None,
         r_continue = Some [''cmcontinue'' \<mapsto> PStr ''page|50|7''],
         r_login = None\<rparr>)))"

definition loop_start :: "int \<Rightarrow> loop_state" where
  "loop_start limit =
     \<lparr>ls_cmlimit = limit, ls_pages = [], ls_subcats = [], ls_returned = 0,
      ls_last_cont = Map.empty\<rparr>"

text \<open>A category with three members.\<close>

definition fruit :: "member list" where
  "fruit = [\<lparr>rec_type = ''page'', rec_title = ''Apple''\<rparr>,
            \<lparr>rec_type = ''subcat'', rec_title = ''Category:Citrus''\<rparr>,
            \<lparr>rec_type = ''file'', rec_title = ''File:Banana.jpg''\<rparr>]"

text \<open>
  A freshly constructed English Wikipedia client, and a site that answers an open search
  with one suggestion.
\<close>

definition client0 :: "'v client" where
  "client0 = \<lparr>lang = ''en'', api_url = ''https://en.wikipedia.org/w/api.php'',
     cat_prefix = ''Category'', rate_limit = False, rate_limit_last_call = None,
     min_wait = 50, api_version = Some [1, 35, 0], api_version_str = Some ''1.35.0'',
     base_url = Some ''https://en.wikipedia.org'', extensions = Some [],
     supported_languages = None, available_languages = None,
     cache = Some empty_memo, refresh_interval = None, use_cache = True,
     is_logged_in = False, now = 0, sent = []\<rparr>"

definition net_suggest :: network where
  "net_suggest i rq =
     (1, Inr (Json (RList ''chess'' [''Chess''] [''Board game'']
                      [''https://en.wikipedia.org/wiki/Chess''])))"

text \<open>
  A wiki in which category \<open>A\<close> has the subcategory \<open>B\<close>, \<open>B\<close> has the subcategory \<open>C\<close>,
  and \<open>C\<close> has none; a wiki without any page; a wiki that is down; and a user who
  interrupts every call.
\<close>

definition wiki_abc :: wiki where
  "wiki_abc =
     \<lparr>page_call = (\<lambda>i title. Inr (PageObj title (Inr [''Letters'']))),
      members_call = (\<lambda>i cat.
         Inr (if cat = ''A'' then ([''Alpha''], [''B''])
              else if cat = ''B'' then ([''Beta''], [''C''])
              else ([], [])))\<rparr>"

definition wiki_missing :: wiki where
  "wiki_missing =
     \<lparr>page_call = (\<lambda>i title. Inl (PageError title)),
      members_call = (\<lambda>i cat. Inr ([], []))\<rparr>"

definition wiki_down :: wiki where
  "wiki_down =
     \<lparr>page_call = (\<lambda>i title. Inl (RequestException ''ConnectionError'')),
      members_call = (\<lambda>i cat. Inl (RequestException ''ConnectionError''))\<rparr>"

definition wiki_interrupted :: wiki where
  "wiki_interrupted =
     \<lparr>page_call = (\<lambda>i title. Inl KeyboardInterrupt),
      members_call = (\<lambda>i cat. Inl KeyboardInterrupt)\<rparr>"

definition tree_start :: tree_state where
  "tree_start = \<lparr>ts_categories = Map.empty, ts_links = Map.empty, ts_calls = [], ts_slept = 0\<rparr>"

section \<open>Properties\<close>

subsection \<open>Error mapping\<close>

lemma check_error_response_mapping:
  "check_error_response (RObj r) q =
     (case r_error r of
        None \<Rightarrow> Inr ()
      | Some None \<Rightarrow> Inl (KeyError ''info'')
      | Some (Some err) \<Rightarrow>
          if err = ''HTTP request timed out.'' \<or> err = ''Pool queue is full''
          then Inl (HTTPTimeoutError q)
          else if err = ''Page coordinates unknown.''
                \<or> err = ''One of the parameters gscoord, gspage, gsbbox is required''
                \<or> err = ''Invalid coordinate provided''
          then Inl (MediaWikiGeoCoordError err)
          else Inl (MediaWikiException err))"
  by (simp add: http_error_def geo_error_def split: option.splits)

text \<open>
  Claim C6.  On a mapping the error object is mapped as stated
  (\<open>check_error_response_mapping\<close>): the two timeout phrases give the timeout error, the
  three geocoordinate phrases the geocoordinate error, any other \<open>error.info\<close> the generic
  error with that message, and a mapping without the key \<open>"error"\<close> raises nothing.  The
  reply to \<open>opensearch\<close> is an array, though, and it has no error object; when its first
  element, the search term, is the string \<open>"error"\<close>, the membership test succeeds and the
  subscript raises \<open>TypeError\<close> instead of raising nothing.
\<close>

theorem check_error_response_opensearch_term_error:
  "check_error_response
     (RList ''error'' [''Error''] [''''] [''https://en.wikipedia.org/wiki/Error'']) ''error''
   = Inl TypeError"
  by simp

subsection \<open>Setters\<close>

text \<open>
  Claim C9.  Assigning any value to \<open>rate_limit\<close> stores its truth value, unsets the
  last-call timestamp and leaves no entry in the memoization cache: no operation has a
  stored key and no captured defaults remain.
\<close>

theorem rate_limit_setter_clears_cache:
  "rate_limit (set_rate_limit v c) = truthy v
   \<and> rate_limit_last_call (set_rate_limit v c) = None
   \<and> cache (set_rate_limit v c) = map_option (\<lambda>m. empty_memo) (cache c)
   \<and> (\<forall>name key. cached (set_rate_limit v c) name key = None)
   \<and> (\<forall>name. cached_defaults (set_rate_limit v c) name = None)"
  by (simp add: set_rate_limit_def clear_memoized_def cached_def cached_defaults_def
        empty_memo_def split: option.splits)

text \<open>
  Claim C10.  Assigning to \<open>language\<close> a value whose lower-case form is the current language
  returns the client unchanged (URL, cache and every other slot).  Otherwise the URL becomes
  the old one with \<open>/<old>.\<close> replaced by \<open>/<new>.\<close>, the language becomes the lower-case
  value, and the cache is emptied.
\<close>

theorem language_setter:
  "(lower l0 = lang c \<longrightarrow> set_language l0 c = c)
   \<and> (lower l0 \<noteq> lang c \<longrightarrow>
        api_url (set_language l0 c)
          = replace (''/'' @ lang c @ ''.'') (''/'' @ lower l0 @ ''.'') (api_url c)
        \<and> lang (set_language l0 c) = lower l0
        \<and> cache (set_language l0 c) = map_option (\<lambda>m. empty_memo) (cache c)
        \<and> (\<forall>name key. cached (set_language l0 c) name key = None))"
  by (auto simp add: set_language_def Let_def clear_memoized_def cached_def
        empty_memo_def split: option.splits)

theorem language_setter_witness:
  "lower ''EN'' = lang client1 \<and> set_language ''EN'' client1 = client1
   \<and> cached client1 ''suggest'' ''chess'' = Some (3, ''Chess'')
   \<and> lower ''FR'' \<noteq> lang client1
   \<and> api_url (set_language ''FR'' client1) = ''https://fr.wikipedia.org/w/api.php''
   \<and> lang (set_language ''FR'' client1) = ''fr''
   \<and> cached (set_language ''FR'' client1) ''suggest'' ''chess'' = None"
  using language_setter [of "''EN''" client1] language_setter [of "''FR''" client1]
  by (simp add: client1_def lower_def lower_char_def upper_letters_def lower_letters_def
        startswith_def cached_def set_language_def Let_def clear_memoized_def empty_memo_def)

subsection \<open>Changing the endpoint\<close>

text \<open>No request, login or site-information call changes the URL or the language.\<close>

lemma session_call_frame:
  "api_url (snd (session_call net m ps c)) = api_url c \<and> lang (snd (session_call net m ps c)) = lang c"
  by (simp add: session_call_def Let_def split: sum.splits reply.splits)

lemma get_response_frame:
  "get_response net ps c = (r, c') \<Longrightarrow> api_url c' = api_url c \<and> lang c' = lang c"
  using session_call_frame [of net GET ps c] by (simp add: get_response_def)

lemma post_response_frame:
  "post_response net ps c = (r, c') \<Longrightarrow> api_url c' = api_url c \<and> lang c' = lang c"
  using session_call_frame [of net POST ps c] by (simp add: post_response_def)

lemma wiki_request_frame:
  "wiki_request net ps c = (r, c') \<Longrightarrow> api_url c' = api_url c \<and> lang c' = lang c"
  unfolding wiki_request_def Let_def
  by (auto split: prod.splits sum.splits option.splits if_splits dest!: get_response_frame)

lemma login_frame:
  "login net u p strict c = (r, c') \<Longrightarrow> api_url c' = api_url c \<and> lang c' = lang c"
  unfolding login_def
  by (auto split: prod.splits sum.splits option.splits if_splits response.splits
        dest!: get_response_frame post_response_frame)

lemma get_site_info_frame:
  "get_site_info net c = (r, c') \<Longrightarrow> api_url c' = api_url c \<and> lang c' = lang c"
  unfolding get_site_info_def Let_def
  by (auto split: prod.splits sum.splits option.splits if_splits response.splits
        dest!: wiki_request_frame)

lemma validate_endpoint_frame:
  "validate_endpoint net u p c = (r, c') \<Longrightarrow> api_url c' = api_url c \<and> lang c' = lang c"
  unfolding validate_endpoint_def
  by (auto split: prod.splits sum.splits option.splits if_splits
        dest!: login_frame get_site_info_frame)

text \<open>
  Claim C7, as the code has it.  When the body of the \<open>try\<close> statement (login, if
  credentials are given, then site information) raises \<open>e\<close>: if \<open>e\<close> is a
  \<open>ConnectTimeout\<close> or an instance of \<open>MediaWikiException\<close>, the URL and the language are
  set back to their values from before the call and \<open>MediaWikiAPIURLError\<close> with the URL
  template is raised; any other exception (a refused connection, a \<open>KeyError\<close> of a reply
  without a generator, ...) leaves the handler aside: it is raised as it is, and the client
  keeps the new URL and language.
\<close>

theorem set_api_url_failure:
  assumes fmt: "format_lang api_url0 (lower lang0) = Inr url"
    and val: "validate_endpoint net username password
                (c\<lparr>lang := lower lang0, api_url := url, is_logged_in := False\<rparr>) = (Inl e, c2)"
  shows "(caught derives e \<longrightarrow>
            fst (set_api_url derives net api_url0 lang0 username password c)
              = Inl (MediaWikiAPIURLError api_url0)
            \<and> api_url (snd (set_api_url derives net api_url0 lang0 username password c))
              = api_url c
            \<and> lang (snd (set_api_url derives net api_url0 lang0 username password c))
              = lang c)
       \<and> (\<not> caught derives e \<longrightarrow>
            set_api_url derives net api_url0 lang0 username password c = (Inl e, c2)
            \<and> api_url c2 = url \<and> lang c2 = lower lang0)"
proof -
  from validate_endpoint_frame [OF val] have "api_url c2 = url" "lang c2 = lower lang0"
    by simp_all
  with fmt val show ?thesis
    by (simp add: set_api_url_def Let_def)
qed


lemmas run_request = validate_endpoint_def get_site_info_def wiki_request_def get_response_def
  session_call_def Let_def empty_obj_def parse_version_def py_int_def strip_def is_space_def
  startswith_def digit_val_def str_int_def digit_def lower_def lower_char_def
  upper_letters_def lower_letters_def format_field_def arg_name_def

theorem set_api_url_failure_witness:
  "fst (set_api_url derives_none net_no_server ''https://{lang}.wikipedia.org/w/api.php''
          ''FR'' None None client1)
     = Inl (MediaWikiAPIURLError ''https://{lang}.wikipedia.org/w/api.php'')
   \<and> api_url (snd (set_api_url derives_none net_no_server
          ''https://{lang}.wikipedia.org/w/api.php'' ''FR'' None None client1))
     = ''https://en.wikipedia.org/w/api.php''
   \<and> lang (snd (set_api_url derives_none net_no_server
          ''https://{lang}.wikipedia.org/w/api.php'' ''FR'' None None client1)) = ''en''
   \<and> fst (set_api_url derives_none net_refused ''https://{lang}.wikipedia.org/w/api.php''
          ''FR'' None None client1)
     = Inl (RequestException ''ConnectionError'')"
proof -
  let ?T = "''https://{lang}.wikipedia.org/w/api.php''"
  let ?U = "''https://fr.wikipedia.org/w/api.php''"
  let ?c = "client1\<lparr>lang := lower ''FR'', api_url := ?U, is_logged_in := False\<rparr>"
  have f: "format_lang ?T (lower ''FR'') = Inr ?U"
    by (simp add: startswith_def lower_def lower_char_def upper_letters_def
          lower_letters_def format_field_def arg_name_def)
  have v1: "validate_endpoint net_no_server None None ?c
            = (Inl (MediaWikiException ''Unable to parse base url''),
               snd (validate_endpoint net_no_server None None ?c))"
    by (simp add: prod_eq_iff run_request net_no_server_def client1_def)
  have v2: "validate_endpoint net_refused None None ?c
            = (Inl (RequestException ''ConnectionError''),
               snd (validate_endpoint net_refused None None ?c))"
    by (simp add: prod_eq_iff run_request net_refused_def client1_def)
  have k1: "caught derives_none (MediaWikiException ''Unable to parse base url'')"
    by (simp add: caught_def)
  have k2: "\<not> caught derives_none (RequestException ''ConnectionError'')"
    by (simp add: caught_def derives_none_def)
  from set_api_url_failure [OF f v1, of derives_none] k1
       set_api_url_failure [OF f v2, of derives_none] k2
  show ?thesis by (simp add: client1_def)
qed

text \<open>
  The claim as stated fails for a host that refuses the connection: the
  site-information request raises the \<open>ConnectionError\<close> of \<open>requests\<close>, which no
  hierarchy makes an instance of the two caught classes; the client is left on the French
  URL and no \<open>MediaWikiAPIURLError\<close> is raised.
\<close>

theorem set_api_url_no_rollback_counterexample:
  "fst (set_api_url derives_none net_refused ''https://{lang}.wikipedia.org/w/api.php''
          ''FR'' None None client1)
     = Inl (RequestException ''ConnectionError'')
   \<and> api_url (snd (set_api_url derives_none net_refused
          ''https://{lang}.wikipedia.org/w/api.php'' ''FR'' None None client1))
     = ''https://fr.wikipedia.org/w/api.php''
   \<and> lang (snd (set_api_url derives_none net_refused
          ''https://{lang}.wikipedia.org/w/api.php'' ''FR'' None None client1)) = ''fr''
   \<and> api_url client1 = ''https://en.wikipedia.org/w/api.php''
   \<and> lang client1 = ''en''"
  by (simp add: set_api_url_def run_request net_refused_def client1_def caught_def derives_none_def)

subsection \<open>Pagination of category members\<close>

lemma get_response_sent:
  "get_response net ps c = (r, c1) \<Longrightarrow>
     sent c1 = sent c @ [\<lparr>rq_method = GET, rq_url = api_url c, rq_params = ps\<rparr>]
     \<and> cat_prefix c1 = cat_prefix c"
  by (auto simp add: get_response_def session_call_def Let_def split: sum.splits reply.splits)

lemma wiki_request_sent:
  assumes "wiki_request net ps c = (r, c1)"
  shows "\<exists>rq. sent c1 = sent c @ [rq] \<and> rq_params rq ''cmlimit'' = ps ''cmlimit''
              \<and> rq_params rq ''cmcontinue'' = ps ''cmcontinue''"
    and "cat_prefix c1 = cat_prefix c"
  using assms unfolding wiki_request_def Let_def
  by (auto split: prod.splits sum.splits option.splits if_splits dest!: get_response_sent)

lemma collect_acc:
  "collect prefix recs (p, s) = (p @ pages_of recs, s @ subcats_of prefix recs)"
  by (induction recs arbitrary: p s) (auto simp: pages_of_def subcats_of_def)

lemma cm_iteration_good:
  assumes req: "pass_request net category subcategories ls c = (Inr (RObj r), c1)"
    and ok: "good_reply r recs"
  shows "cm_iteration net category subcategories results ls c =
     (let ls1 = ls\<lparr>ls_pages := ls_pages ls @ pages_of recs,
                    ls_subcats := ls_subcats ls @ subcats_of (cat_prefix c) recs\<rparr>
      in case continuation r of
           None \<Rightarrow> (Inr (True, ls1), c1)
         | Some cont \<Rightarrow>
             if ls_last_cont ls = cont then (Inr (True, ls1), c1)
             else
               (let returned_results = ls_returned ls + int (length recs);
                    go_on = (case results of None \<Rightarrow> True | Some n \<Rightarrow> n - returned_results > 0);
                    ls2 = ls1\<lparr>ls_returned := returned_results\<rparr>;
                    ls3 = (if go_on then ls2\<lparr>ls_last_cont := cont\<rparr> else ls2);
                    ls4 = (case results of
                             None \<Rightarrow> ls3
                           | Some n \<Rightarrow> if n - returned_results < max_pull
                                       then ls3\<lparr>ls_cmlimit := n - returned_results\<rparr> else ls3)
                in (Inr (\<not> go_on, ls4), c1)))"
proof -
  from req have pref: "cat_prefix c1 = cat_prefix c"
    unfolding pass_request_def by (rule wiki_request_sent(2))
  from ok obtain q where q: "r_error r = None" "r_query r = Some q" "q_categorymembers q = Some recs"
    by (auto simp: good_reply_def)
  show ?thesis
    using req q pref unfolding cm_iteration_def pass_request_def
    by (simp add: collect_acc Let_def split: option.splits)
qed

text \<open>
  Claim C3.  Take a pass of the loop whose request returns a usable reply.  If the reply
  has no continuation token, or its token equals the one stored by the previous pass
  (initially the empty mapping), or the target count is reached by the members received so
  far, then the loop ends in this pass, for any number of passes it would still be allowed:
  it returns the pages and subcategories gathered, and the only request sent is that of this
  pass.  In particular, when a pass goes on and the next usable reply repeats its token, the
  loop ends in that next pass, after exactly two requests.
\<close>

theorem pagination_terminates:
  assumes req: "pass_request net category subcategories ls c = (Inr (RObj r), c1)"
    and ok: "good_reply r recs"
  shows "(continuation r = None \<or> continuation r = Some (ls_last_cont ls)
           \<or> (\<exists>n. results = Some n \<and> n \<le> ls_returned ls + int (length recs))
          \<longrightarrow> (\<exists>ls'. cm_loop (Suc fuel) net category subcategories results ls c
                        = (Some (Inr ls'), c1)
                     \<and> ls_pages ls' = ls_pages ls @ pages_of recs
                     \<and> ls_subcats ls' = ls_subcats ls @ subcats_of (cat_prefix c) recs)
              \<and> length (sent c1) = Suc (length (sent c)))
       \<and> (\<forall>ls1 r2 recs2 c2.
            cm_iteration net category subcategories results ls c = (Inr (False, ls1), c1)
            \<and> pass_request net category subcategories ls1 c1 = (Inr (RObj r2), c2)
            \<and> good_reply r2 recs2 \<and> continuation r2 = continuation r
          \<longrightarrow> (\<exists>ls'. cm_loop (Suc (Suc fuel)) net category subcategories results ls c
                        = (Some (Inr ls'), c2))
              \<and> length (sent c2) = Suc (Suc (length (sent c))))"
proof (intro conjI impI allI)
  assume stop: "continuation r = None \<or> continuation r = Some (ls_last_cont ls)
           \<or> (\<exists>n. results = Some n \<and> n \<le> ls_returned ls + int (length recs))"
  then show "\<exists>ls'. cm_loop (Suc fuel) net category subcategories results ls c
                        = (Some (Inr ls'), c1)
                     \<and> ls_pages ls' = ls_pages ls @ pages_of recs
                     \<and> ls_subcats ls' = ls_subcats ls @ subcats_of (cat_prefix c) recs"
    by (auto simp add: cm_iteration_good [OF req ok] Let_def split: option.splits)
next
  from req show "length (sent c1) = Suc (length (sent c))"
    unfolding pass_request_def by (auto dest: wiki_request_sent(1))
next
  fix ls1 r2 recs2 c2
  assume h: "cm_iteration net category subcategories results ls c = (Inr (False, ls1), c1)
            \<and> pass_request net category subcategories ls1 c1 = (Inr (RObj r2), c2)
            \<and> good_reply r2 recs2 \<and> continuation r2 = continuation r"
  then have tok: "continuation r = Some (ls_last_cont ls1)"
    by (auto simp add: cm_iteration_good [OF req ok] Let_def split: option.splits if_splits)
  from h have req2: "pass_request net category subcategories ls1 c1 = (Inr (RObj r2), c2)"
    and ok2: "good_reply r2 recs2" and same: "continuation r2 = continuation r" by auto
  have "fst (cm_iteration net category subcategories results ls1 c1) = Inr (True, ls1\<lparr>ls_pages := ls_pages ls1 @ pages_of recs2,
                    ls_subcats := ls_subcats ls1 @ subcats_of (cat_prefix c1) recs2\<rparr>)"
    "snd (cm_iteration net category subcategories results ls1 c1) = c2"
    using tok same by (simp_all add: cm_iteration_good [OF req2 ok2] Let_def)
  then have "cm_iteration net category subcategories results ls1 c1 = (Inr (True, ls1\<lparr>ls_pages := ls_pages ls1 @ pages_of recs2,
                    ls_subcats := ls_subcats ls1 @ subcats_of (cat_prefix c1) recs2\<rparr>), c2)"
    by (simp add: prod_eq_iff)
  with h show "\<exists>ls'. cm_loop (Suc (Suc fuel)) net category subcategories results ls c
                        = (Some (Inr ls'), c2)"
    by simp
  from req req2 show "length (sent c2) = Suc (Suc (length (sent c)))"
    unfolding pass_request_def by (auto dest!: wiki_request_sent(1))
qed


lemma empty_neq_upd: "(\<lambda>x. None) \<noteq> m(k \<mapsto> v)"
  by (metis map_upd_nonempty)

lemmas run_pass = empty_neq_upd pass_request_def cm_iteration_def wiki_request_def get_response_def
  session_call_def search_params_def good_reply_def continuation_def max_pull_def
  pages_of_def subcats_of_def subcat_name_def startswith_def Let_def

theorem pagination_terminates_witness:
  "map_option (map_sum id ls_pages)
     (fst (cm_loop (Suc 0) net_stuck ''Physics'' True (Some 1) (loop_start 1) client1))
     = Some (Inr [''P''])
   \<and> length (sent (snd (cm_loop (Suc 0) net_stuck ''Physics'' True (Some 1) (loop_start 1)
                          client1))) = 1
   \<and> map_option (map_sum id ls_pages)
       (fst (cm_loop (Suc (Suc 0)) net_stuck ''Physics'' True None (loop_start 500) client1))
     = Some (Inr [''P'', ''P''])
   \<and> length (sent (snd (cm_loop (Suc (Suc 0)) net_stuck ''Physics'' True None
                          (loop_start 500) client1))) = 2"
proof -
  let ?r = "\<lparr>r_error = None,
         r_query = Some \<lparr>q_categorymembers = Some [\<lparr>rec_type = ''page'', rec_title = ''P''\<rparr>],
                         q_general = None, q_extensions = None, q_tokens = None\<rparr>,
         r_query_continue = None,
         r_continue = Some [''cmcontinue'' \<mapsto> PStr ''page|50|7''],
         r_login = None\<rparr>"
  let ?recs = "[\<lparr>rec_type = ''page'', rec_title = ''P''\<rparr>]"
  let ?c1 = "snd (pass_request net_stuck ''Physics'' True (loop_start 1) client1)"
  let ?d1 = "snd (pass_request net_stuck ''Physics'' True (loop_start 500) client1)"
  let ?ls1 = "snd (projr (fst (cm_iteration net_stuck ''Physics'' True None (loop_start 500) client1)))"
  let ?d2 = "snd (pass_request net_stuck ''Physics'' True ?ls1 ?d1)"
  have ok: "good_reply ?r ?recs" by (simp add: good_reply_def)
  have reqA: "pass_request net_stuck ''Physics'' True (loop_start 1) client1 = (Inr (RObj ?r), ?c1)"
    by (simp add: prod_eq_iff run_pass net_stuck_def loop_start_def client1_def)
  have reqB: "pass_request net_stuck ''Physics'' True (loop_start 500) client1 = (Inr (RObj ?r), ?d1)"
    by (simp add: prod_eq_iff run_pass net_stuck_def loop_start_def client1_def)
  have itB: "cm_iteration net_stuck ''Physics'' True None (loop_start 500) client1 = (Inr (False, ?ls1), ?d1)"
    by (simp add: prod_eq_iff run_pass net_stuck_def loop_start_def client1_def)
  have reqB2: "pass_request net_stuck ''Physics'' True ?ls1 ?d1 = (Inr (RObj ?r), ?d2)"
    by (simp add: prod_eq_iff run_pass net_stuck_def loop_start_def client1_def)
  have stopA: "\<exists>n. Some (1::int) = Some n \<and> n \<le> ls_returned (loop_start 1) + int (length ?recs)"
    by (simp add: loop_start_def)
  from pagination_terminates [OF reqA ok, of "Some 1" 0] stopA
  have A: "\<exists>ls'. cm_loop (Suc 0) net_stuck ''Physics'' True (Some 1) (loop_start 1) client1 = (Some (Inr ls'), ?c1)
      \<and> ls_pages ls' = ls_pages (loop_start 1) @ pages_of ?recs" 
      and A2: "length (sent ?c1) = Suc (length (sent client1))"
    by blast+
  from pagination_terminates [OF reqB ok, of None 0] itB reqB2 ok
  have B: "\<exists>ls'. cm_loop (Suc (Suc 0)) net_stuck ''Physics'' True None (loop_start 500) client1 = (Some (Inr ls'), ?d2)" 
      and B2: "length (sent ?d2) = Suc (Suc (length (sent client1)))"
    by blast+
  show ?thesis 
    using A A2 B B2
    by (simp add: run_pass net_stuck_def loop_start_def client1_def)
qed

subsection \<open>The result count of category members\<close>

lemma source_api_pass:
  assumes lc: "ls_last_cont ls = (if k = 0 then Map.empty else offset_token k)"
  shows "fst (pass_request (source_api src) category sub ls c) =
     Inr (RObj \<lparr>r_error = None,
             r_query = Some \<lparr>q_categorymembers = Some (take (nat (ls_cmlimit ls)) (drop k src)),
                             q_general = None, q_extensions = None, q_tokens = None\<rparr>,
             r_query_continue = None,
             r_continue = (if k + nat (ls_cmlimit ls) < length src
                           then Some (offset_token (k + nat (ls_cmlimit ls)))
                           else None),
             r_login = None\<rparr>)"
  using lc
  by (simp add: pass_request_def wiki_request_def get_response_def session_call_def
        source_api_def search_params_def offset_token_def Let_def map_add_def
        split: option.splits)

lemma pass_request_sent:
  assumes "pass_request net category sub ls c = (r, c1)" "ls_last_cont ls ''cmlimit'' = None"
  shows "\<exists>rq. sent c1 = sent c @ [rq] \<and> cmlimit_of rq = ls_cmlimit ls"
    and "cat_prefix c1 = cat_prefix c"
proof -
  from assms(1) wiki_request_sent(1) [of net _ c r c1]
  obtain rq where "sent c1 = sent c @ [rq]"
    "rq_params rq ''cmlimit'' = (search_params (cat_prefix c) sub (ls_cmlimit ls) category ++ ls_last_cont ls) ''cmlimit''"
    unfolding pass_request_def by blast
  with assms(2) show "\<exists>rq. sent c1 = sent c @ [rq] \<and> cmlimit_of rq = ls_cmlimit ls"
    by (auto simp add: cmlimit_of_def search_params_def map_add_def)
  from assms(1) show "cat_prefix c1 = cat_prefix c"
    unfolding pass_request_def by (rule wiki_request_sent(2))
qed

lemma pages_of_append: "pages_of (xs @ ys) = pages_of xs @ pages_of ys"
  by (simp add: pages_of_def)

lemma subcats_of_append: "subcats_of p (xs @ ys) = subcats_of p xs @ subcats_of p ys"
  by (simp add: subcats_of_def)

lemma offset_token_inj: "offset_token k = offset_token k' \<Longrightarrow> k = k'"
  by (auto simp add: offset_token_def dest!: fun_cong [where x = "''cmcontinue''"])

lemma offset_token_nonempty: "Map.empty \<noteq> offset_token k"
  by (simp add: offset_token_def empty_neq_upd)


lemma paging_step:
  assumes N: "nat N \<le> length src" and k: "k < nat N" and pre: "cat_prefix c = prefix"
  defines "k' \<equiv> k + nat (min (N - int k) max_pull)"
  shows "k < k' \<and> k' \<le> nat N
     \<and> (\<exists>c1 ls' rq. cm_iteration (source_api src) category sub (Some N)
                     (paging_state prefix src N k) c = (Inr (k' = nat N, ls'), c1)
           \<and> cat_prefix c1 = prefix
           \<and> sent c1 = sent c @ [rq] \<and> cmlimit_of rq = int k' - int k
           \<and> (if k' = nat N
               then ls_pages ls' = pages_of (take (nat N) src)
                    \<and> ls_subcats ls' = subcats_of prefix (take (nat N) src)
               else ls' = paging_state prefix src N k'))"
proof -
  let ?ls = "paging_state prefix src N k"
  let ?lim = "nat (min (N - int k) max_pull)"
  let ?recs = "take ?lim (drop k src)"
  let ?R = "\<lparr>r_error = None,
             r_query = Some \<lparr>q_categorymembers = Some ?recs,
                             q_general = None, q_extensions = None, q_tokens = None\<rparr>,
             r_query_continue = None,
             r_continue = (if k + ?lim < length src then Some (offset_token (k + ?lim)) else None),
             r_login = None\<rparr>"
  have lim: "1 \<le> ?lim" "k + ?lim \<le> nat N" "int ?lim = min (N - int k) max_pull"
    using k by (auto simp add: max_pull_def)
  have kk: "k < k'" "k' \<le> nat N" unfolding k'_def using lim(1,2) by linarith+
  have len: "length ?recs = ?lim" using lim(2) N by auto
  have d: "int k' - int k = min (N - int k) max_pull" unfolding k'_def using lim(3) by linarith
  have lc: "ls_last_cont ?ls = (if k = 0 then Map.empty else offset_token k)"
    and cm: "ls_cmlimit ?ls = min (N - int k) max_pull"
    by (simp_all add: paging_state_def)
  obtain c1 where req: "pass_request (source_api src) category sub ?ls c = (Inr (RObj ?R), c1)"
    using source_api_pass [OF lc, of src category sub c] unfolding cm
    by (cases "pass_request (source_api src) category sub ?ls c") simp
  have ok: "good_reply ?R ?recs" by (simp add: good_reply_def)
  have nolim: "ls_last_cont ?ls ''cmlimit'' = None"
    by (simp add: paging_state_def offset_token_def)
  from pass_request_sent [OF req nolim] obtain rq where
    snt: "sent c1 = sent c @ [rq]" "cmlimit_of rq = int k' - int k" and pre1: "cat_prefix c1 = prefix"
    using pre unfolding d cm by auto
  have cont: "continuation ?R = (if k' < length src then Some (offset_token k') else None)"
    by (simp add: continuation_def k'_def)
  have tk: "take k src @ ?recs = take k' src"
    by (simp add: k'_def take_add)
  have pg: "ls_pages ?ls @ pages_of ?recs = pages_of (take k' src)"
    "ls_subcats ?ls @ subcats_of (cat_prefix c) ?recs = subcats_of prefix (take k' src)"
    using tk pre
    by (simp_all add: paging_state_def pages_of_append [symmetric] subcats_of_append [symmetric])
  have neq: "ls_last_cont ?ls \<noteq> offset_token k'"
    using kk(1) offset_token_inj [of k k'] offset_token_nonempty [of k']
    by (auto simp add: paging_state_def)
  have it: "cm_iteration (source_api src) category sub (Some N) ?ls c =
     (let ls1 = ?ls\<lparr>ls_pages := pages_of (take k' src),
                    ls_subcats := subcats_of prefix (take k' src)\<rparr>
      in case continuation ?R of
           None \<Rightarrow> (Inr (True, ls1), c1)
         | Some cont \<Rightarrow>
             if ls_last_cont ?ls = cont then (Inr (True, ls1), c1)
             else
               (let returned_results = ls_returned ?ls + int (length ?recs);
                    go_on = (case Some N of None \<Rightarrow> True | Some n \<Rightarrow> n - returned_results > 0);
                    ls2 = ls1\<lparr>ls_returned := returned_results\<rparr>;
                    ls3 = (if go_on then ls2\<lparr>ls_last_cont := cont\<rparr> else ls2);
                    ls4 = (case Some N of
                             None \<Rightarrow> ls3
                           | Some n \<Rightarrow> if n - returned_results < max_pull
                                       then ls3\<lparr>ls_cmlimit := n - returned_results\<rparr> else ls3)
                in (Inr (\<not> go_on, ls4), c1)))"
    unfolding cm_iteration_good [OF req ok] pg ..
  have ret: "ls_returned ?ls + int (length ?recs) = int k'"
  proof -
    have "ls_returned ?ls = int k" by (simp add: paging_state_def)
    moreover have "int (length ?recs) = int k' - int k" unfolding len d by (rule lim(3))
    ultimately show ?thesis by linarith
  qed
  show ?thesis
  proof (cases "k' = nat N")
    case True
    then have "\<exists>ls'. cm_iteration (source_api src) category sub (Some N) ?ls c = (Inr (True, ls'), c1)
        \<and> ls_pages ls' = pages_of (take (nat N) src)
        \<and> ls_subcats ls' = subcats_of prefix (take (nat N) src)"
      unfolding it cont ret using neq
      by (auto simp add: Let_def)
    with True kk snt pre1 show ?thesis by auto
  next
    case False
    with kk have lt: "k' < nat N" by simp
    with N have lt2: "k' < length src" by simp
    have "cm_iteration (source_api src) category sub (Some N) ?ls c
            = (Inr (False, paging_state prefix src N k'), c1)"
      unfolding it cont ret using neq lt lt2 kk lim
      by (auto simp add: Let_def paging_state_def max_pull_def k'_def)
    with False kk snt pre1 show ?thesis by auto
  qed
qed


lemma paging_loop:
  assumes N: "nat N \<le> length src"
  shows "k < nat N \<Longrightarrow> cat_prefix c = prefix \<Longrightarrow> nat N - k \<le> fuel \<Longrightarrow>
     \<exists>ls' c' more.
       cm_loop fuel (source_api src) category sub (Some N) (paging_state prefix src N k) c
         = (Some (Inr ls'), c')
       \<and> ls_pages ls' = pages_of (take (nat N) src)
       \<and> ls_subcats ls' = subcats_of prefix (take (nat N) src)
       \<and> sent c' = sent c @ more \<and> sum_list (map cmlimit_of more) = N - int k"
proof (induction fuel arbitrary: k c)
  case 0
  then show ?case by simp
next
  case (Suc f)
  let ?k' = "k + nat (min (N - int k) max_pull)"
  from paging_step [OF N Suc.prems(1) Suc.prems(2), of category sub]
  obtain c1 ls1 rq where kk: "k < ?k'" "?k' \<le> nat N"
    and it: "cm_iteration (source_api src) category sub (Some N) (paging_state prefix src N k) c
               = (Inr (?k' = nat N, ls1), c1)"
    and pre1: "cat_prefix c1 = prefix"
    and snt: "sent c1 = sent c @ [rq]" "cmlimit_of rq = int ?k' - int k"
    and fin: "if ?k' = nat N
               then ls_pages ls1 = pages_of (take (nat N) src)
                    \<and> ls_subcats ls1 = subcats_of prefix (take (nat N) src)
               else ls1 = paging_state prefix src N ?k'"
    by blast
  show ?case
  proof (cases "?k' = nat N")
    case True
    with it have "cm_loop (Suc f) (source_api src) category sub (Some N)
                    (paging_state prefix src N k) c = (Some (Inr ls1), c1)"
      by simp
    moreover from True Suc.prems(1) snt(2) have "sum_list (map cmlimit_of [rq]) = N - int k"
      by simp
    ultimately show ?thesis using True fin snt(1) by (metis (no_types, lifting))
  next
    case False
    with kk have lt: "?k' < nat N" by simp
    from False fin have ls1: "ls1 = paging_state prefix src N ?k'" by simp
    from lt Suc.prems(3) kk have fuel: "nat N - ?k' \<le> f" by linarith
    from Suc.IH [OF lt pre1 fuel]
    obtain ls' c' more where
      run: "cm_loop f (source_api src) category sub (Some N) (paging_state prefix src N ?k') c1
              = (Some (Inr ls'), c')"
      and res: "ls_pages ls' = pages_of (take (nat N) src)"
               "ls_subcats ls' = subcats_of prefix (take (nat N) src)"
      and more: "sent c' = sent c1 @ more" "sum_list (map cmlimit_of more) = N - int ?k'"
      by blast
    from it False ls1 run
    have "cm_loop (Suc f) (source_api src) category sub (Some N)
            (paging_state prefix src N k) c = (Some (Inr ls'), c')"
      by simp
    moreover from more snt have "sent c' = sent c @ (rq # more)"
      "sum_list (map cmlimit_of (rq # more)) = N - int k"
      by simp_all
    ultimately show ?thesis using res by blast
  qed
qed

lemma length_pages_subcats:
  "\<forall>m \<in> set xs. rec_type m \<in> set (requested_types sub) \<Longrightarrow>
     (if sub then length (pages_of xs) + length (subcats_of p xs) else length (pages_of xs))
       = length xs"
  by (induction xs) (auto simp add: pages_of_def subcats_of_def requested_types_def)

text \<open>
  Claim C4.  Against a listing that holds at least \<open>N \<ge> 1\<close> members of the requested
  types and serves them in order, \<open>categorymembers\<close> with \<open>results = N\<close> returns: the
  result is made of the first \<open>N\<close> members and of nothing else, the pages (pages and files)
  and the subcategory names each in the order of the listing, \<open>N\<close> items in all.  The
  \<open>cmlimit\<close> values of the requests it sends add up to \<open>N\<close>: each request asks for no more
  than what is still missing, the last one for exactly the remainder.  \<open>N\<close> passes of the
  loop are enough.
\<close>

theorem categorymembers_returns_N:
  assumes N: "1 \<le> N" and src: "nat N \<le> length src"
    and types: "\<forall>m \<in> set src. rec_type m \<in> set (requested_types subcategories)"
    and cat: "strip category \<noteq> []" and fuel: "nat N \<le> fuel"
  shows "\<exists>c' more.
     categorymembers fuel (source_api src) category (Some N) subcategories c
       = (Some (Inr (if subcategories
                     then Both (pages_of (take (nat N) src))
                               (subcats_of (cat_prefix c) (take (nat N) src))
                     else Pages (pages_of (take (nat N) src)))), c')
     \<and> (if subcategories
         then length (pages_of (take (nat N) src))
              + length (subcats_of (cat_prefix c) (take (nat N) src))
         else length (pages_of (take (nat N) src))) = nat N
     \<and> sent c' = sent c @ more \<and> sum_list (map cmlimit_of more) = N"
proof -
  have start: "\<lparr>ls_cmlimit = (case Some N of None \<Rightarrow> max_pull | Some n \<Rightarrow> min n max_pull),
                   ls_pages = [], ls_subcats = [], ls_returned = 0,
                   ls_last_cont = Map.empty\<rparr> = paging_state (cat_prefix c) src N 0"
    by (simp add: paging_state_def pages_of_def subcats_of_def)
  from N have pos: "0 < nat N" by simp
  from fuel have f: "nat N - 0 \<le> fuel" by simp
  from paging_loop [where c = c and prefix = "cat_prefix c" and category = category
      and sub = subcategories, OF src pos refl f]
  obtain ls' c' more where
    run: "cm_loop fuel (source_api src) category subcategories (Some N)
            (paging_state (cat_prefix c) src N 0) c = (Some (Inr ls'), c')"
    and res: "ls_pages ls' = pages_of (take (nat N) src)"
             "ls_subcats ls' = subcats_of (cat_prefix c) (take (nat N) src)"
    and more: "sent c' = sent c @ more" "sum_list (map cmlimit_of more) = N - int 0"
    by blast
  have "\<forall>m \<in> set (take (nat N) src). rec_type m \<in> set (requested_types subcategories)"
    using types by (meson in_set_takeD)
  from length_pages_subcats [OF this, of "cat_prefix c"] src
  have cnt: "(if subcategories
         then length (pages_of (take (nat N) src))
              + length (subcats_of (cat_prefix c) (take (nat N) src))
         else length (pages_of (take (nat N) src))) = nat N"
    by simp
  have "categorymembers fuel (source_api src) category (Some N) subcategories c
       = (Some (Inr (if subcategories
                     then Both (pages_of (take (nat N) src))
                               (subcats_of (cat_prefix c) (take (nat N) src))
                     else Pages (pages_of (take (nat N) src)))), c')"
    unfolding categorymembers_def start using cat run res
    by (simp add: check_query_def)
  with cnt more show ?thesis by auto
qed


theorem categorymembers_returns_N_witness:
  "(1::int) \<le> 2 \<and> nat 2 \<le> length fruit
   \<and> set (map rec_type fruit) \<subseteq> set (requested_types True)
   \<and> strip ''Fruit'' \<noteq> []
   \<and> fst (categorymembers 2 (source_api fruit) ''Fruit'' (Some 2) True client1)
       = Some (Inr (Both [''Apple''] [''Citrus'']))"
proof -
  have h: "(1::int) \<le> 2" "nat 2 \<le> length fruit"
    "\<forall>m \<in> set fruit. rec_type m \<in> set (requested_types True)"
    "strip ''Fruit'' \<noteq> []" "nat 2 \<le> (2::nat)"
    by (simp_all add: fruit_def requested_types_def strip_def is_space_def)
  have "pages_of (take (nat 2) fruit) = [''Apple'']"
    "subcats_of (cat_prefix client1) (take (nat 2) fruit) = [''Citrus'']"
    by (simp_all add: fruit_def pages_of_def subcats_of_def subcat_name_def startswith_def
          client1_def)
  moreover have "set (map rec_type fruit) \<subseteq> set (requested_types True)"
    by (simp add: fruit_def requested_types_def)
  ultimately show ?thesis
    using categorymembers_returns_N [OF h, of client1] h by auto
qed

subsection \<open>Memoization\<close>

lemma memoize_hit:
  assumes "cache c = Some m" "m_entries m (op_name op) = Some part" "part key = Some (t, v)"
    and "call_key op args kwargs c = Some key"
    and "use_cache c" "refresh_interval c = None"
  shows "memoize op g args kwargs c = (Inr v, c)"
proof -
  from assms(1,2) have reg: "register op m = m" by (simp add: register_def)
  from assms(1) have c: "c\<lparr>cache := Some m\<rparr> = c" by simp
  from assms(4) reg assms(1) obtain dflt where
    "(case m_defaults m of None \<Rightarrow> None | Some d \<Rightarrow> d (op_name op)) = Some dflt"
    "build_key args kwargs dflt = key"
    by (auto simp add: call_key_def registered_def cached_defaults_def split: option.splits)
  with assms reg c show ?thesis
    by (simp add: memoize_def Let_def)
qed

lemma store_entry:
  assumes "store name key tv c = Inr c1"
  shows "\<exists>m part. cache c1 = Some m \<and> m_entries m name = Some part \<and> part key = Some tv"
    and "cached_defaults c1 = cached_defaults c"
    and "use_cache c1 = use_cache c" "refresh_interval c1 = refresh_interval c"
proof -
  from assms show "\<exists>m part. cache c1 = Some m \<and> m_entries m name = Some part \<and> part key = Some tv"
    by (auto simp add: store_def split: option.splits)
  from assms show "cached_defaults c1 = cached_defaults c"
    by (auto simp add: store_def cached_defaults_def fun_eq_iff split: option.splits)
  from assms show "use_cache c1 = use_cache c" "refresh_interval c1 = refresh_interval c"
    by (auto simp add: store_def split: option.splits)
qed

lemma memoize_returns:
  assumes on: "use_cache c" and first: "memoize op f args kwargs c = (Inr v, c1)"
  shows "\<exists>m part t key. cache c1 = Some m \<and> m_entries m (op_name op) = Some part
           \<and> part key = Some (t, v) \<and> call_key op args kwargs c = Some key"
proof -
  from first obtain m0 where m0: "cache c = Some m0"
    by (auto simp add: memoize_def split: option.splits)
  let ?m = "register op m0"
  let ?c0 = "c\<lparr>cache := Some ?m\<rparr>"
  from first on m0 obtain dflt part where
    d: "(case m_defaults ?m of None \<Rightarrow> None | Some d \<Rightarrow> d (op_name op)) = Some dflt"
    and p: "m_entries ?m (op_name op) = Some part"
    by (auto simp add: memoize_def Let_def split: option.splits)
  let ?key = "build_key args kwargs dflt"
  from d m0 have key: "call_key op args kwargs c = Some ?key"
    by (simp add: call_key_def registered_def cached_defaults_def)
  consider (run) "compute_and_store (op_name op) ?key (f args kwargs) ?c0 = (Inr v, c1)"
    | (hit) t where "part ?key = Some (t, v)" "c1 = ?c0"
    using first on m0 d p
    by (auto simp add: memoize_def Let_def split: option.splits if_splits)
  then show ?thesis
  proof cases
    case run
    then obtain c2 where "store (op_name op) ?key (now ?c0, v) c2 = Inr c1"
      by (auto simp add: compute_and_store_def split: prod.splits sum.splits)
    from store_entry(1) [OF this] key show ?thesis by blast
  next
    case hit
    with p key show ?thesis by auto
  qed
qed

lemma register_entries: "m_entries (register op m) (op_name op) \<noteq> None"
  by (simp add: register_def)

lemma memoize_miss:
  assumes on: "use_cache c" and key: "call_key op args kwargs c = Some key"
    and miss: "cached (registered op c) (op_name op) key = None"
  shows "memoize op f args kwargs c =
           compute_and_store (op_name op) key (f args kwargs) (registered op c)"
proof -
  from key obtain m0 where m0: "cache c = Some m0"
    by (auto simp add: call_key_def registered_def cached_defaults_def split: option.splits)
  from register_entries [of op m0] obtain part where
    p: "m_entries (register op m0) (op_name op) = Some part" by auto
  from on key miss m0 p show ?thesis
    by (auto simp add: memoize_def Let_def call_key_def registered_def cached_defaults_def
          cached_def split: option.splits)
qed

text \<open>
  Claim C2, as the code has it.  With caching on and no refresh interval, a call that
  returns is followed by a call with the same key that returns the same value and leaves
  the client as it is, whatever the compute function would do: it is not invoked.  A call
  that finds no entry for its key runs the compute function once, on the client with the
  operation registered, and stores its value with the time of the call; when the compute
  function raises, the exception is passed on and nothing is stored.  With caching off the
  wrapper is the compute function.
\<close>

theorem memoize_calls:
  "(use_cache c \<and> memoize op f args kwargs c = (Inr v, c1)
      \<and> use_cache c1 \<and> refresh_interval c1 = None
      \<and> call_key op args kwargs c1 = call_key op args kwargs c
    \<longrightarrow> memoize op g args kwargs c1 = (Inr v, c1))
   \<and> (use_cache c \<and> call_key op args kwargs c = Some key
        \<and> cached (registered op c) (op_name op) key = None
        \<and> f args kwargs (registered op c) = (Inr v, c2)
        \<and> store (op_name op) key (now c, v) c2 = Inr c1
      \<longrightarrow> memoize op f args kwargs c = (Inr v, c1))
   \<and> (use_cache c \<and> call_key op args kwargs c = Some key
        \<and> cached (registered op c) (op_name op) key = None
        \<and> f args kwargs (registered op c) = (Inl e, c2)
      \<longrightarrow> memoize op f args kwargs c = (Inl e, c2))
   \<and> (\<not> use_cache c \<and> cache c \<noteq> None \<longrightarrow> memoize op f args kwargs c = f args kwargs c)"
proof (intro conjI impI)
  assume h: "use_cache c \<and> memoize op f args kwargs c = (Inr v, c1)
      \<and> use_cache c1 \<and> refresh_interval c1 = None
      \<and> call_key op args kwargs c1 = call_key op args kwargs c"
  from memoize_returns [of c op f args kwargs v c1] h
  obtain m part t key where e: "cache c1 = Some m" "m_entries m (op_name op) = Some part"
    "part key = Some (t, v)" and k: "call_key op args kwargs c = Some key"
    by blast
  from k h have k1: "call_key op args kwargs c1 = Some key" by simp
  from h have "use_cache c1" "refresh_interval c1 = None" by simp_all
  with e k1 show "memoize op g args kwargs c1 = (Inr v, c1)"
    by (rule memoize_hit)
next
  assume h: "use_cache c \<and> call_key op args kwargs c = Some key
        \<and> cached (registered op c) (op_name op) key = None
        \<and> f args kwargs (registered op c) = (Inr v, c2)
        \<and> store (op_name op) key (now c, v) c2 = Inr c1"
  then have "memoize op f args kwargs c =
           compute_and_store (op_name op) key (f args kwargs) (registered op c)"
    by (intro memoize_miss) auto
  with h show "memoize op f args kwargs c = (Inr v, c1)"
    by (simp add: compute_and_store_def registered_def)
next
  assume h: "use_cache c \<and> call_key op args kwargs c = Some key
        \<and> cached (registered op c) (op_name op) key = None
        \<and> f args kwargs (registered op c) = (Inl e, c2)"
  then have "memoize op f args kwargs c =
           compute_and_store (op_name op) key (f args kwargs) (registered op c)"
    by (intro memoize_miss) auto
  with h show "memoize op f args kwargs c = (Inl e, c2)"
    by (simp add: compute_and_store_def)
next
  assume "\<not> use_cache c \<and> cache c \<noteq> None"
  then show "memoize op f args kwargs c = f args kwargs c"
    by (auto simp add: memoize_def)
qed

lemma opensearch_key:
  "build_key [PStr ''chess''] [] [(''results'', PInt 10), (''redirect'', PBool True)]
     = ''chess - (redirect: True) - (results: 10)''"
  by code_simp

lemmas run_opensearch = opensearch_def check_query_def strip_def is_space_def
  wiki_request_def get_response_def session_call_def max_pull_def Let_def

text \<open>
  The claim as stated covers every operation and argument, also those on which the compute
  function raises.  Then nothing is stored and the second call computes again: two calls of
  \<open>opensearch("chess")\<close> against a host that refuses the connection send two requests.
\<close>

theorem memoize_twice_counterexample:
  "use_cache (client0 :: (string \<times> string \<times> string) list client)
   \<and> refresh_interval (client0 :: (string \<times> string \<times> string) list client) = None
   \<and> fst (opensearch_memoized net_refused ''chess'' client0)
       = Inl (RequestException ''ConnectionError'')
   \<and> fst (opensearch_memoized net_refused ''chess''
             (snd (opensearch_memoized net_refused ''chess'' client0)))
       = Inl (RequestException ''ConnectionError'')
   \<and> length (sent (snd (opensearch_memoized net_refused ''chess''
                          (snd (opensearch_memoized net_refused ''chess'' client0))))) = 2"
  by (simp add: opensearch_memoized_def memoize_def register_def opensearch_op_def
        opensearch_key compute_and_store_def run_opensearch net_refused_def client0_def
        empty_memo_def)


lemmas run_memo = opensearch_memoized_def memoize_def register_def opensearch_op_def
  opensearch_key compute_and_store_def store_def run_opensearch client0_def empty_memo_def
  call_key_def registered_def cached_defaults_def cached_def

theorem memoize_calls_witness:
  "opensearch_memoized net_refused ''chess''
       (snd (opensearch_memoized net_suggest ''chess'' client0))
     = (Inr [(''Chess'', ''Board game'', ''https://en.wikipedia.org/wiki/Chess'')],
        snd (opensearch_memoized net_suggest ''chess'' client0))
   \<and> fst (opensearch_memoized net_suggest ''chess'' client0)
     = Inr [(''Chess'', ''Board game'', ''https://en.wikipedia.org/wiki/Chess'')]
   \<and> opensearch_memoized net_refused ''chess'' client0
     = (Inl (RequestException ''ConnectionError''),
        snd (opensearch net_refused ''chess'' (Some 10) True
               (registered opensearch_op client0)))
   \<and> opensearch_memoized net_suggest ''chess'' (client0\<lparr>use_cache := False\<rparr>)
     = opensearch net_suggest ''chess'' (Some 10) True (client0\<lparr>use_cache := False\<rparr>)"
proof -
  let ?C = "client0 :: (string \<times> string \<times> string) list client"
  let ?f = "\<lambda>(args :: pyval list) (kwargs :: (string \<times> pyval) list).
              opensearch net_suggest ''chess'' (Some 10) True
                :: (string \<times> string \<times> string) list client \<Rightarrow> _"
  let ?g = "\<lambda>(args :: pyval list) (kwargs :: (string \<times> pyval) list).
              opensearch net_refused ''chess'' (Some 10) True
                :: (string \<times> string \<times> string) list client \<Rightarrow> _"
  let ?v = "[(''Chess'', ''Board game'', ''https://en.wikipedia.org/wiki/Chess'')]"
  let ?key = "''chess - (redirect: True) - (results: 10)''"
  let ?c1 = "snd (memoize opensearch_op ?f [PStr ''chess''] [] ?C)"
  let ?c2 = "snd (?f [PStr ''chess''] [] (registered opensearch_op ?C))"
  let ?e2 = "snd (?g [PStr ''chess''] [] (registered opensearch_op ?C))"
  have a1: "use_cache ?C" by (simp add: client0_def)
  have a2: "memoize opensearch_op ?f [PStr ''chess''] [] ?C = (Inr ?v, ?c1)"
    by (simp add: prod_eq_iff run_memo net_suggest_def)
  have a3: "use_cache ?c1" "refresh_interval ?c1 = None"
    by (simp_all add: run_memo net_suggest_def)
  have a4: "call_key opensearch_op [PStr ''chess''] [] ?C = Some ?key"
    by (simp add: run_memo)
  have a5: "call_key opensearch_op [PStr ''chess''] [] ?c1 = Some ?key"
    by (simp add: run_memo net_suggest_def)
  have b1: "cached (registered opensearch_op ?C) (op_name opensearch_op) ?key = None"
    by (simp add: run_memo)
  have b2: "?f [PStr ''chess''] [] (registered opensearch_op ?C) = (Inr ?v, ?c2)"
    by (simp add: prod_eq_iff run_memo net_suggest_def)
  have b3: "store (op_name opensearch_op) ?key (now ?C, ?v) ?c2 = Inr ?c1"
    by (simp add: run_memo net_suggest_def)
  have c1: "?g [PStr ''chess''] [] (registered opensearch_op ?C)
              = (Inl (RequestException ''ConnectionError''), ?e2)"
    by (simp add: prod_eq_iff run_memo net_refused_def)
  have d1: "\<not> use_cache (?C\<lparr>use_cache := False\<rparr>)" "cache (?C\<lparr>use_cache := False\<rparr>) \<noteq> None"
    by (simp_all add: client0_def)
  from memoize_calls [where c = ?C and ?c1.0 = ?c1 and f = ?f and g = ?g and v = ?v
        and op = opensearch_op and args = "[PStr ''chess'']" and kwargs = "[]"]
    a1 a2 a3 a4 a5
  have r1: "memoize opensearch_op ?g [PStr ''chess''] [] ?c1 = (Inr ?v, ?c1)" by simp
  from memoize_calls [where c = ?C and ?c1.0 = ?c1 and ?c2.0 = ?c2 and f = ?f and v = ?v
        and key = ?key and op = opensearch_op and args = "[PStr ''chess'']" and kwargs = "[]"]
    a1 a4 b1 b2 b3
  have r2: "memoize opensearch_op ?f [PStr ''chess''] [] ?C = (Inr ?v, ?c1)" by blast
  from memoize_calls [where c = ?C and ?c2.0 = ?e2 and f = ?g
        and e = "RequestException ''ConnectionError''"
        and key = ?key and op = opensearch_op and args = "[PStr ''chess'']" and kwargs = "[]"]
    a1 a4 b1 c1
  have r3: "memoize opensearch_op ?g [PStr ''chess''] [] ?C
              = (Inl (RequestException ''ConnectionError''), ?e2)" by blast
  from memoize_calls [where c = "?C\<lparr>use_cache := False\<rparr>" and f = ?f
        and op = opensearch_op and args = "[PStr ''chess'']" and kwargs = "[]"] d1
  have r4: "memoize opensearch_op ?f [PStr ''chess''] [] (?C\<lparr>use_cache := False\<rparr>)
              = ?f [PStr ''chess''] [] (?C\<lparr>use_cache := False\<rparr>)" by blast
  from r2 have r2': "fst (memoize opensearch_op ?f [PStr ''chess''] [] ?C) = Inr ?v"
    by (metis fst_conv)
  show ?thesis
    unfolding opensearch_memoized_def by (intro conjI r1 r2' r3 r4)
qed

subsection \<open>Resolving a category\<close>

declare fetch_category.simps [simp del]

lemma attempt_page_fails:
  assumes "page_call w (length (ts_calls s)) (prefix @ '':'' @ cat) = Inl e"
  shows "attempt w prefix cat s = (Inl e, s\<lparr>ts_calls := ts_calls s @ [PageCall (prefix @ '':'' @ cat)]\<rparr>)"
  using assms by (simp add: attempt_def Let_def)

lemma fetch_category_all_fail:
  assumes fail: "\<forall>i t. \<exists>e. page_call w i t = Inl e \<and> retryable e"
  shows "tries + k = 11 \<Longrightarrow>
     \<exists>s'. fetch_category w prefix cat tries s = (Inl (MediaWikiCategoryTreeError cat), s')
          \<and> ts_slept s' = ts_slept s + k
          \<and> ts_calls s' = ts_calls s @ replicate k (PageCall (prefix @ '':'' @ cat))
          \<and> ts_categories s' = ts_categories s"
proof (induction k arbitrary: tries s)
  case 0
  then show ?case by (simp add: fetch_category.simps)
next
  case (Suc k)
  let ?t = "prefix @ '':'' @ cat"
  let ?s1 = "s\<lparr>ts_calls := ts_calls s @ [PageCall ?t]\<rparr>"
  from fail obtain e where e: "page_call w (length (ts_calls s)) ?t = Inl e" "retryable e"
    by blast
  from Suc.prems have le: "\<not> 10 < tries" and nxt: "(tries + 1) + k = 11" by simp_all
  from attempt_page_fails [OF e(1)] e(2) le
  have "fetch_category w prefix cat tries s
          = fetch_category w prefix cat (tries + 1) (?s1\<lparr>ts_slept := ts_slept ?s1 + 1\<rparr>)"
    by (subst fetch_category.simps) (simp add: retryable_def)
  moreover from Suc.IH [OF nxt, of "?s1\<lparr>ts_slept := ts_slept ?s1 + 1\<rparr>"]
  obtain s' where "fetch_category w prefix cat (tries + 1) (?s1\<lparr>ts_slept := ts_slept ?s1 + 1\<rparr>)
        = (Inl (MediaWikiCategoryTreeError cat), s')"
    "ts_slept s' = ts_slept s + Suc k"
    "ts_calls s' = ts_calls s @ replicate (Suc k) (PageCall ?t)"
    "ts_categories s' = ts_categories s"
    by (auto simp add: replicate_app_Cons_same)
  ultimately show ?case by auto
qed

text \<open>
  Claim C5.  While a category \<open>C\<close> is resolved, with at most 10 failed attempts so far:
  an attempt that fails with a \<open>PageError\<close> ends the loop with the \<open>PageError\<close> of the
  category title, in the state that attempt left (no sleep, no further call); so does a
  \<open>KeyboardInterrupt\<close>, raised as it is; any other exception adds one time unit of sleep and
  one to the counter, and the loop goes on from there.  With more than 10 failed attempts the
  loop raises \<open>MediaWikiCategoryTreeError\<close> with the name of \<open>C\<close>; when every attempt fails
  with an exception of the third kind that takes 11 attempts and 11 units of sleep.  An
  exception of the loop is the exception of \<open>__cat_tree_rec\<close>.
\<close>

theorem fetch_category_handlers:
  "(tries \<le> 10 \<and> attempt w prefix cat s = (Inl e, s1) \<and> is_PageError e
      \<longrightarrow> fetch_category w prefix cat tries s = (Inl (PageError (prefix @ '':'' @ cat)), s1))
   \<and> (tries \<le> 10 \<and> attempt w prefix cat s = (Inl KeyboardInterrupt, s1)
      \<longrightarrow> fetch_category w prefix cat tries s = (Inl KeyboardInterrupt, s1))
   \<and> (tries \<le> 10 \<and> attempt w prefix cat s = (Inl e, s1) \<and> retryable e
      \<longrightarrow> fetch_category w prefix cat tries s
           = fetch_category w prefix cat (tries + 1) (s1\<lparr>ts_slept := ts_slept s1 + 1\<rparr>))
   \<and> (10 < tries
      \<longrightarrow> fetch_category w prefix cat tries s = (Inl (MediaWikiCategoryTreeError cat), s))
   \<and> ((\<forall>i t. \<exists>x. page_call w i t = Inl x \<and> retryable x)
      \<longrightarrow> (\<exists>s'. fetch_category w prefix cat 0 s = (Inl (MediaWikiCategoryTreeError cat), s')
                \<and> ts_slept s' = ts_slept s + 11
                \<and> ts_calls s' = ts_calls s @ replicate 11 (PageCall (prefix @ '':'' @ cat))))
   \<and> (ts_categories s cat = None \<and> fetch_category w prefix cat 0 s = (Inl e, s1)
      \<longrightarrow> cat_tree_rec (Suc n) w prefix cat depth level s = (Some (Inl e), s1))"
proof (intro conjI impI)
  assume "tries \<le> 10 \<and> attempt w prefix cat s = (Inl e, s1) \<and> is_PageError e"
  then show "fetch_category w prefix cat tries s = (Inl (PageError (prefix @ '':'' @ cat)), s1)"
    by (subst fetch_category.simps) simp
next
  assume "tries \<le> 10 \<and> attempt w prefix cat s = (Inl KeyboardInterrupt, s1)"
  then show "fetch_category w prefix cat tries s = (Inl KeyboardInterrupt, s1)"
    by (subst fetch_category.simps) simp
next
  assume "tries \<le> 10 \<and> attempt w prefix cat s = (Inl e, s1) \<and> retryable e"
  then show "fetch_category w prefix cat tries s
           = fetch_category w prefix cat (tries + 1) (s1\<lparr>ts_slept := ts_slept s1 + 1\<rparr>)"
    by (subst fetch_category.simps) (simp add: retryable_def)
next
  assume "10 < tries"
  then show "fetch_category w prefix cat tries s = (Inl (MediaWikiCategoryTreeError cat), s)"
    by (subst fetch_category.simps) simp
next
  assume "\<forall>i t. \<exists>x. page_call w i t = Inl x \<and> retryable x"
  from fetch_category_all_fail [OF this, of 0 11 prefix cat s]
  show "\<exists>s'. fetch_category w prefix cat 0 s = (Inl (MediaWikiCategoryTreeError cat), s')
                \<and> ts_slept s' = ts_slept s + 11
                \<and> ts_calls s' = ts_calls s @ replicate 11 (PageCall (prefix @ '':'' @ cat))"
    by auto
next
  assume "ts_categories s cat = None \<and> fetch_category w prefix cat 0 s = (Inl e, s1)"
  then show "cat_tree_rec (Suc n) w prefix cat depth level s = (Some (Inl e), s1)"
    by simp
qed


theorem fetch_category_handlers_witness:
  "fetch_category wiki_missing ''Category'' ''A'' 0 tree_start
     = (Inl (PageError ''Category:A''), tree_start\<lparr>ts_calls := [PageCall ''Category:A'']\<rparr>)
   \<and> fetch_category wiki_interrupted ''Category'' ''A'' 0 tree_start
     = (Inl KeyboardInterrupt, tree_start\<lparr>ts_calls := [PageCall ''Category:A'']\<rparr>)
   \<and> fetch_category wiki_down ''Category'' ''A'' 10 tree_start
     = fetch_category wiki_down ''Category'' ''A'' 11
         (tree_start\<lparr>ts_calls := [PageCall ''Category:A''], ts_slept := 1\<rparr>)
   \<and> fetch_category wiki_down ''Category'' ''A'' 11 tree_start
     = (Inl (MediaWikiCategoryTreeError ''A''), tree_start)
   \<and> fst (fetch_category wiki_down ''Category'' ''A'' 0 tree_start)
     = Inl (MediaWikiCategoryTreeError ''A'')
   \<and> ts_slept (snd (fetch_category wiki_down ''Category'' ''A'' 0 tree_start)) = 11
   \<and> length (ts_calls (snd (fetch_category wiki_down ''Category'' ''A'' 0 tree_start))) = 11
   \<and> cat_tree_rec (Suc 0) wiki_missing ''Category'' ''A'' (Some 1) 0 tree_start
     = (Some (Inl (PageError ''Category:A'')),
        tree_start\<lparr>ts_calls := [PageCall ''Category:A'']\<rparr>)"
proof -
  let ?s1 = "tree_start\<lparr>ts_calls := [PageCall ''Category:A'']\<rparr>"
  have m: "attempt wiki_missing ''Category'' ''A'' tree_start
             = (Inl (PageError ''Category:A''), ?s1)"
    "is_PageError (PageError ''Category:A'')"
    by (simp_all add: attempt_def Let_def wiki_missing_def tree_start_def)
  have i: "attempt wiki_interrupted ''Category'' ''A'' tree_start = (Inl KeyboardInterrupt, ?s1)"
    by (simp add: attempt_def Let_def wiki_interrupted_def tree_start_def)
  have d: "attempt wiki_down ''Category'' ''A'' tree_start
             = (Inl (RequestException ''ConnectionError''), ?s1)"
    "retryable (RequestException ''ConnectionError'')"
    by (simp_all add: attempt_def Let_def wiki_down_def tree_start_def retryable_def)
  have a: "\<forall>i t. \<exists>x. page_call wiki_down i t = Inl x \<and> retryable x"
    by (simp add: wiki_down_def retryable_def)
  have n: "ts_categories tree_start ''A'' = None" by (simp add: tree_start_def)
  have le: "(0::nat) \<le> 10" "(10::nat) \<le> 10" "(10::nat) < 11" by simp_all
  note T = fetch_category_handlers
  from T [of 0 wiki_missing "''Category''" "''A''" tree_start "PageError ''Category:A''" ?s1] m le
  have r1: "fetch_category wiki_missing ''Category'' ''A'' 0 tree_start
              = (Inl (PageError ''Category:A''), ?s1)"
    by simp
  from T [of 0 wiki_interrupted "''Category''" "''A''" tree_start _ ?s1] i le
  have r2: "fetch_category wiki_interrupted ''Category'' ''A'' 0 tree_start
              = (Inl KeyboardInterrupt, ?s1)"
    by simp
  from T [of 10 wiki_down "''Category''" "''A''" tree_start
            "RequestException ''ConnectionError''" ?s1] d le
  have r3: "fetch_category wiki_down ''Category'' ''A'' 10 tree_start
     = fetch_category wiki_down ''Category'' ''A'' 11
         (tree_start\<lparr>ts_calls := [PageCall ''Category:A''], ts_slept := 1\<rparr>)"
    by (simp add: tree_start_def)
  from T [of 11 wiki_down "''Category''" "''A''" tree_start] le
  have r4: "fetch_category wiki_down ''Category'' ''A'' 11 tree_start
     = (Inl (MediaWikiCategoryTreeError ''A''), tree_start)"
    by simp
  from T [of 0 wiki_down "''Category''" "''A''" tree_start] a
  obtain s' where r5: "fetch_category wiki_down ''Category'' ''A'' 0 tree_start
        = (Inl (MediaWikiCategoryTreeError ''A''), s')"
    "ts_slept s' = ts_slept tree_start + 11"
    "ts_calls s' = ts_calls tree_start @ replicate 11 (PageCall (''Category'' @ '':'' @ ''A''))"
    by blast
  from T [of 0 wiki_missing "''Category''" "''A''" tree_start "PageError ''Category:A''" ?s1
            0 "Some 1" 0] n r1
  have r6: "cat_tree_rec (Suc 0) wiki_missing ''Category'' ''A'' (Some 1) 0 tree_start
     = (Some (Inl (PageError ''Category:A'')), ?s1)"
    by blast
  from r5 have r5': "fst (fetch_category wiki_down ''Category'' ''A'' 0 tree_start)
     = Inl (MediaWikiCategoryTreeError ''A'')"
    "ts_slept (snd (fetch_category wiki_down ''Category'' ''A'' 0 tree_start)) = 11"
    "length (ts_calls (snd (fetch_category wiki_down ''Category'' ''A'' 0 tree_start))) = 11"
    by (simp_all add: tree_start_def)
  show ?thesis by (intro conjI r1 r2 r3 r4 r5' r6)
qed

subsection \<open>Validation\<close>

text \<open>
  Claim C8.  \<open>categorytree\<close> raises \<open>ValueError\<close> when the category is a single name that is
  \<open>None\<close> or the empty string, given alone or as a list of one, and when the depth is an
  integer below 1; \<open>categorymembers\<close> and \<open>opensearch\<close> raise \<open>ValueError\<close> when the text is
  blank, that is empty or white space only, as in \<open>categorymembers("")\<close> and
  \<open>opensearch("")\<close>.  In each case the state is the one the call started in: nothing was
  fetched and no request was sent, however many steps the model is allowed.
\<close>

theorem validation_before_requests:
  "((category = Single None \<or> category = Single (Some []) \<or> category = Many [None]
       \<or> category = Many [Some []])
      \<longrightarrow> categorytree fuel w prefix category depth s
            = (Some (Inl (ValueError (category_message category))), s))
   \<and> ((\<exists>d. depth = Some d \<and> d < 1)
      \<longrightarrow> (\<exists>msg. categorytree fuel w prefix category depth s
                   = (Some (Inl (ValueError msg)), s)))
   \<and> (strip q = []
      \<longrightarrow> categorymembers fuel net q results subcategories c
            = (Some (Inl (ValueError ''Category must be specified'')), c)
          \<and> opensearch net q results redirect c
            = (Inl (ValueError ''Query must be specified''), c))"
  by (auto simp add: categorytree_def category_parameter_verification_def Let_def
        categorymembers_def opensearch_def check_query_def
        split: category_arg.splits option.splits)

theorem validation_before_requests_witness:
  "categorytree 3 wiki_abc ''Category'' (Single (Some [])) (Some 5) tree_start
     = (Some (Inl (ValueError (category_message (Single (Some []))))), tree_start)
   \<and> category_message (Single (Some []))
     = ''CategoryTree: Parameter 'category' must either be a list of one or more categories or a string; provided: ''
       @ [CHR 0x27, CHR 0x27]
   \<and> categorytree 3 wiki_abc ''Category'' (Many [None]) (Some 5) tree_start
     = (Some (Inl (ValueError (category_message (Many [None])))), tree_start)
   \<and> str_category (Many [None]) = ''[None]''
   \<and> categorytree 3 wiki_abc ''Category'' (Single (Some ''A'')) (Some 0) tree_start
     = (Some (Inl (ValueError depth_message)), tree_start)
   \<and> strip [] = []
   \<and> categorymembers 3 (source_api fruit) [] (Some 10) True client1
     = (Some (Inl (ValueError ''Category must be specified'')), client1)
   \<and> opensearch net_suggest [] (Some 10) True client1
     = (Inl (ValueError ''Query must be specified''), client1)
   \<and> strip ''  '' = []
   \<and> opensearch net_suggest ''  '' (Some 10) True client1
     = (Inl (ValueError ''Query must be specified''), client1)"
proof -
  have b: "strip [] = []" "strip ''  '' = []" by (simp_all add: strip_def is_space_def)
  have d: "\<exists>d. Some (0::int) = Some d \<and> d < 1" by simp
  have m: "category_message (Single (Some []))
     = ''CategoryTree: Parameter 'category' must either be a list of one or more categories or a string; provided: ''
       @ [CHR 0x27, CHR 0x27]"
    "str_category (Many [None]) = ''[None]''"
    by (simp_all add: category_message_def repr_name_def)
  note T = validation_before_requests
  from T [of "Single (Some [])" 3 wiki_abc "''Category''" "Some 5" tree_start]
  have r1: "categorytree 3 wiki_abc ''Category'' (Single (Some [])) (Some 5) tree_start
     = (Some (Inl (ValueError (category_message (Single (Some []))))), tree_start)"
    by blast
  from T [of "Many [None]" 3 wiki_abc "''Category''" "Some 5" tree_start]
  have r1': "categorytree 3 wiki_abc ''Category'' (Many [None]) (Some 5) tree_start
     = (Some (Inl (ValueError (category_message (Many [None])))), tree_start)"
    by blast
  from T [of "Single (Some ''A'')" 3 wiki_abc "''Category''" "Some 0" tree_start] d
  have r2: "categorytree 3 wiki_abc ''Category'' (Single (Some ''A'')) (Some 0) tree_start
     = (Some (Inl (ValueError depth_message)), tree_start)"
    by (auto simp add: categorytree_def category_parameter_verification_def)
  from T [where q = "[]" and fuel = 3 and net = "source_api fruit" and results = "Some 10"
        and subcategories = True and c = client1 and redirect = True] b(1)
  have r3: "categorymembers 3 (source_api fruit) [] (Some 10) True client1
     = (Some (Inl (ValueError ''Category must be specified'')), client1)"
    by blast
  from T [where q = "[]" and net = net_suggest and results = "Some 10"
        and redirect = True and c = client1] b(1)
  have r4: "opensearch net_suggest [] (Some 10) True client1
     = (Inl (ValueError ''Query must be specified''), client1)"
    by blast
  from T [where q = "''  ''" and net = net_suggest and results = "Some 10"
        and redirect = True and c = client1] b(2)
  have r5: "opensearch net_suggest ''  '' (Some 10) True client1
     = (Inl (ValueError ''Query must be specified''), client1)"
    by blast
  show ?thesis by (intro conjI r1 m r1' r2 b r3 r4 r5)
qed

subsection \<open>The depth limit of the category tree\<close>

lemma shape_entries: "shape d (Node l ls ps subs) = list_all (entry_shape d l) subs"
  by (auto simp add: shape.simps list_all_iff entry_shape_def case_prod_beta
        split: option.splits)

declare shape.simps [simp del]

lemma update_list_all:
  "P (k, v) \<Longrightarrow> list_all P t \<Longrightarrow> list_all P (AList.update k v t)"
  by (induction t) auto

lemma update_keys: "fst ` set (AList.update k v t) = insert k (fst ` set t)"
  by (induction t) auto

lemma placeholders_fold:
  "list_all (\<lambda>e. snd e = None) t \<Longrightarrow>
     list_all (\<lambda>e. snd e = None) (fold (\<lambda>ctg tree. AList.update ctg None tree) ctgs t)
     \<and> fst ` set (fold (\<lambda>ctg tree. AList.update ctg None tree) ctgs t) = fst ` set t \<union> set ctgs"
  by (induction ctgs arbitrary: t) (auto simp add: update_list_all update_keys)

lemma placeholders_none:
  "list_all (\<lambda>e. snd e = None) (placeholders ctgs)"
  "fst ` set (placeholders ctgs) = set ctgs"
  using placeholders_fold [of "[]" ctgs] by (auto simp add: placeholders_def)

lemma links_known_None: "links_known s \<Longrightarrow> ts_categories s c = None \<Longrightarrow> ts_links s c = None"
  unfolding links_known_def by blast

lemma extends_links: "extends s s' \<Longrightarrow> ts_links s c = Some lk \<Longrightarrow> ts_links s' c = Some lk"
  unfolding extends_def by blast

lemma extends_refl: "links_known s \<Longrightarrow> extends s s"
  by (simp add: extends_def)

lemma extends_trans: "extends s s1 \<Longrightarrow> extends s1 s2 \<Longrightarrow> extends s s2"
  by (simp add: extends_def)

lemma attempt_effect:
  assumes "attempt w prefix cat s = (r, s')" "links_known s" "ts_links s cat = None"
  shows "extends s s'"
    and "case r of Inl e \<Rightarrow> ts_links s' cat = None | Inr pc \<Rightarrow> ts_links s' cat \<noteq> None"
    and "set (ts_calls s') \<subseteq> set (ts_calls s) \<union> calls_for prefix cat"
  using assms
  by (auto simp add: attempt_def Let_def extends_def links_known_def calls_for_def
        split: sum.splits if_splits)

lemma fetch_category_effect:
  "fetch_category w prefix cat tries s = (r, s') \<Longrightarrow> links_known s \<Longrightarrow> ts_links s cat = None \<Longrightarrow>
     extends s s'
     \<and> (\<forall>pc. r = Inr pc \<longrightarrow> ts_links s' cat \<noteq> None)
     \<and> set (ts_calls s') \<subseteq> set (ts_calls s) \<union> calls_for prefix cat"
proof (induction w prefix cat tries s rule: fetch_category.induct)
  case (1 w prefix cat tries s)
  show ?case
  proof (cases "10 < tries")
    case True
    with "1.prems" show ?thesis
      by (auto simp add: fetch_category.simps extends_refl)
  next
    case False
    obtain r1 s1 where a: "attempt w prefix cat s = (r1, s1)" by (cases "attempt w prefix cat s")
    note eff = attempt_effect [OF a "1.prems"(2,3)]
    show ?thesis
    proof (cases r1)
      case (Inr pc)
      with a False "1.prems"(1) eff show ?thesis
        by (auto simp add: fetch_category.simps)
    next
      case (Inl e)
      show ?thesis
      proof (cases "is_PageError e \<or> e = KeyboardInterrupt")
        case True
        with Inl a False "1.prems"(1) eff show ?thesis
          by (auto simp add: fetch_category.simps)
      next
        case no: False
        let ?s2 = "s1\<lparr>ts_slept := ts_slept s1 + 1\<rparr>"
        from Inl a False no "1.prems"(1)
        have run: "fetch_category w prefix cat (tries + 1) ?s2 = (r, s')"
          by (simp add: fetch_category.simps)
        from eff Inl have k: "links_known ?s2" "ts_links ?s2 cat = None"
          by (simp_all add: extends_def links_known_def)
        from no have np: "\<not> is_PageError e" and nk: "e \<noteq> KeyboardInterrupt" by simp_all
        from "1.IH" [OF False a [symmetric] Inl np nk run k]
        have ih: "extends ?s2 s'" "\<forall>pc. r = Inr pc \<longrightarrow> ts_links s' cat \<noteq> None"
          "set (ts_calls s') \<subseteq> set (ts_calls ?s2) \<union> calls_for prefix cat"
          by auto
        from eff(1) have "extends s ?s2" by (simp add: extends_def links_known_def)
        with ih eff(3) show ?thesis
          by (auto intro: extends_trans)
      qed
    qed
  qed
qed


lemma expand_subcats_build:
  assumes rec: "\<And>cat level s r s'. links_known s \<Longrightarrow>
            cat_tree_rec n w prefix cat (Some d) level s = (r, s') \<Longrightarrow>
            extends s s' \<and> (\<forall>nd. r = Some (Inr nd) \<longrightarrow> n_depth nd = level \<and> shape d nd)"
    and l: "int l < d"
  shows "links_known t \<Longrightarrow> list_all (entry_shape d l) tree \<Longrightarrow>
     expand_subcats n w prefix ctgs (Some d) (l + 1) tree t = (r2, t') \<Longrightarrow>
     extends t t'
     \<and> (\<forall>tr. r2 = Some (Inr tr) \<longrightarrow>
            list_all (entry_shape d l) tr \<and> fst ` set tr = fst ` set tree \<union> set ctgs)"
proof (induction ctgs arbitrary: tree t)
  case Nil
  then show ?case by (auto simp add: extends_refl)
next
  case (Cons ctg ctgs)
  obtain r1 t1 where c: "cat_tree_rec n w prefix ctg (Some d) (l + 1) t = (r1, t1)"
    by (cases "cat_tree_rec n w prefix ctg (Some d) (l + 1) t")
  from rec [OF Cons.prems(1) c]
  have ext: "extends t t1" and nd: "\<forall>nd. r1 = Some (Inr nd) \<longrightarrow> n_depth nd = l + 1 \<and> shape d nd"
    by simp_all
  show ?case
  proof (cases r1)
    case None
    with c Cons.prems(3) ext show ?thesis by auto
  next
    case (Some x)
    show ?thesis
    proof (cases x)
      case (Inl e)
      with Some c Cons.prems(3) ext show ?thesis by auto
    next
      case (Inr node)
      with Some c Cons.prems(3)
      have run: "expand_subcats n w prefix ctgs (Some d) (l + 1)
                   (AList.update ctg (Some node) tree) t1 = (r2, t')"
        by simp
      from nd Some Inr l have "entry_shape d l (ctg, Some node)"
        by (simp add: entry_shape_def)
      with Cons.prems(2) have ok: "list_all (entry_shape d l) (AList.update ctg (Some node) tree)"
        by (simp add: update_list_all)
      from ext have k1: "links_known t1" by (simp add: extends_def)
      from Cons.IH [OF k1 ok run] ext show ?thesis
        by (auto simp add: update_keys intro: extends_trans)
    qed
  qed
qed

lemma cat_tree_rec_build:
  assumes d: "1 \<le> d"
  shows "links_known s \<Longrightarrow> cat_tree_rec n w prefix cat (Some d) level s = (r, s') \<Longrightarrow>
     extends s s'
     \<and> (\<forall>nd. r = Some (Inr nd) \<longrightarrow>
            n_depth nd = level \<and> shape d nd
            \<and> (\<exists>lk. ts_links s' cat = Some lk \<and> n_links nd = fst lk
                     \<and> fst ` set (n_subs nd) = set (snd lk)))"
proof (induction n arbitrary: cat level s r s')
  case 0
  then show ?case by (auto simp add: extends_refl)
next
  case (Suc n)
  have rec: "\<And>cat level s r s'. links_known s \<Longrightarrow>
            cat_tree_rec n w prefix cat (Some d) level s = (r, s') \<Longrightarrow>
            extends s s' \<and> (\<forall>nd. r = Some (Inr nd) \<longrightarrow> n_depth nd = level \<and> shape d nd)"
    using Suc.IH by blast
  obtain r1 s1 where f: "(case ts_categories s cat of
              None \<Rightarrow> fetch_category w prefix cat 0 s
            | Some pag \<Rightarrow> (p_categories pag, s)) = (r1, s1)"
    by (cases "case ts_categories s cat of
              None \<Rightarrow> fetch_category w prefix cat 0 s
            | Some pag \<Rightarrow> (p_categories pag, s)")
  have ext1: "extends s s1"
  proof (cases "ts_categories s cat")
    case None
    with Suc.prems(1) have "ts_links s cat = None" by (rule links_known_None)
    with fetch_category_effect [of w prefix cat 0 s r1 s1] f None Suc.prems(1)
    show ?thesis by simp
  next
    case (Some pag)
    with f Suc.prems(1) show ?thesis by (auto simp add: extends_refl)
  qed
  then have k1: "links_known s1" by (simp add: extends_def)
  show ?case
  proof (cases r1)
    case (Inl e)
    with f Suc.prems(2) ext1 show ?thesis by auto
  next
    case (Inr parent_cats)
    show ?thesis
    proof (cases "ts_links s1 cat")
      case None
      with Inr f Suc.prems(2) ext1 show ?thesis by auto
    next
      case (Some lk)
      show ?thesis
      proof (cases "at_limit (Some d) level")
        case True
        then have dl: "d \<le> int level" by (simp add: at_limit_def)
        from True Some Inr f Suc.prems(2)
        have res: "r = Some (Inr (Node level (fst lk) parent_cats (placeholders (snd lk))))"
          "s' = s1" by auto
        have "list_all (entry_shape d level) (placeholders (snd lk))"
          using placeholders_none(1) [of "snd lk"] dl
          by (auto simp add: list_all_iff entry_shape_def)
        with res Some ext1 placeholders_none(2) [of "snd lk"] show ?thesis
          by (auto simp add: shape_entries)
      next
        case False
        with d have lt: "int level < d" by (simp add: at_limit_def)
        obtain r2 s2 where e: "expand_subcats n w prefix (snd lk) (Some d) (level + 1) [] s1
                                 = (r2, s2)"
          by (cases "expand_subcats n w prefix (snd lk) (Some d) (level + 1) [] s1")
        from expand_subcats_build [OF rec lt k1 _ e]
        have ext2: "extends s1 s2"
          and subs: "\<forall>tr. r2 = Some (Inr tr) \<longrightarrow>
            list_all (entry_shape d level) tr \<and> fst ` set tr = set (snd lk)"
          by simp_all
        from ext1 ext2 have ext: "extends s s2" by (rule extends_trans)
        from ext2 Some have lk2: "ts_links s2 cat = Some lk" by (rule extends_links)
        from False Some Inr f Suc.prems(2) e
        have res: "s' = s2"
          "r = (case r2 of None \<Rightarrow> None | Some (Inl e) \<Rightarrow> Some (Inl e)
                | Some (Inr subs) \<Rightarrow> Some (Inr (Node level (fst lk) parent_cats subs)))"
          by (auto split: option.splits sum.splits)
        with ext lk2 subs show ?thesis
          by (auto simp add: shape_entries split: option.splits sum.splits)
      qed
    qed
  qed
qed


lemma expand_subcats_fuel:
  assumes rec: "\<And>cat s. fst (cat_tree_rec n w prefix cat depth level s) \<noteq> None"
  shows "fst (expand_subcats n w prefix ctgs depth level tree t) \<noteq> None"
proof (induction ctgs arbitrary: tree t)
  case Nil
  show ?case by simp
next
  case (Cons ctg ctgs)
  obtain r1 t1 where c: "cat_tree_rec n w prefix ctg depth level t = (r1, t1)"
    by (cases "cat_tree_rec n w prefix ctg depth level t")
  with rec [of ctg t] obtain x where "r1 = Some x" by auto
  with c Cons.IH show ?case
    by (cases x) simp_all
qed

lemma cat_tree_rec_fuel:
  assumes d: "1 \<le> d"
  shows "level \<le> nat d \<Longrightarrow> nat d + 1 \<le> n + level \<Longrightarrow>
           fst (cat_tree_rec n w prefix cat (Some d) level s) \<noteq> None"
proof (induction n arbitrary: cat level s)
  case 0
  then show ?case by simp
next
  case (Suc n)
  show ?case
  proof (cases "at_limit (Some d) level")
    case True
    then show ?thesis
      by (simp split: prod.splits sum.splits option.splits)
  next
    case False
    with d have lt: "int level < d" by (simp add: at_limit_def)
    then have "level + 1 \<le> nat d" "nat d + 1 \<le> n + (level + 1)"
      using Suc.prems by simp_all
    then have "\<And>cat s. fst (cat_tree_rec n w prefix cat (Some d) (level + 1) s) \<noteq> None"
      by (rule Suc.IH)
    then have "\<And>ctgs tree t.
        fst (expand_subcats n w prefix ctgs (Some d) (level + 1) tree t) \<noteq> None"
      by (rule expand_subcats_fuel)
    then have e: "\<And>ctgs tree t.
        \<exists>x t'. expand_subcats n w prefix ctgs (Some d) (level + 1) tree t = (Some x, t')"
      by (metis fst_conv not_Some_eq surj_pair)
    show ?thesis
    proof -
      { fix lk :: "string list \<times> string list" and parent_cats :: "string list"
          and s1 :: tree_state
        from e [of "snd lk" "[]" s1] obtain x t' where
          "expand_subcats n w prefix (snd lk) (Some d) (level + 1) [] s1 = (Some x, t')"
          by blast
        then have "fst (case expand_subcats n w prefix (snd lk) (Some d) (level + 1) [] s1 of
                       (None, s2) \<Rightarrow> (None, s2)
                     | (Some (Inl e), s2) \<Rightarrow> (Some (Inl e), s2)
                     | (Some (Inr subs), s2) \<Rightarrow>
                         (Some (Inr (Node level (fst lk) parent_cats subs)), s2)) \<noteq> None"
          by (cases x) simp_all }
      with False show ?thesis
        by (simp split: prod.splits sum.splits option.splits)
    qed
  qed
qed

lemma at_limit_node:
  assumes lim: "at_limit depth level"
    and run: "cat_tree_rec n w prefix cat depth level s = (Some (Inr nd), s')"
    and known: "links_known s"
  shows "list_all (\<lambda>e. snd e = None) (n_subs nd)"
    and "set (ts_calls s') \<subseteq> set (ts_calls s) \<union> calls_for prefix cat"
proof -
  from run obtain m where n: "n = Suc m" by (cases n) auto
  obtain r1 s1 where f: "(case ts_categories s cat of
              None \<Rightarrow> fetch_category w prefix cat 0 s
            | Some pag \<Rightarrow> (p_categories pag, s)) = (r1, s1)"
    by (cases "case ts_categories s cat of
              None \<Rightarrow> fetch_category w prefix cat 0 s
            | Some pag \<Rightarrow> (p_categories pag, s)")
  from run n f lim obtain parent_cats lk where
    res: "nd = Node level (fst lk) parent_cats (placeholders (snd lk))" "s' = s1"
    by (auto split: sum.splits option.splits)
  from res placeholders_none(1) show "list_all (\<lambda>e. snd e = None) (n_subs nd)" by simp
  show "set (ts_calls s') \<subseteq> set (ts_calls s) \<union> calls_for prefix cat"
  proof (cases "ts_categories s cat")
    case None
    with known have "ts_links s cat = None" by (rule links_known_None)
    with fetch_category_effect [of w prefix cat 0 s r1 s1] f None known res(2)
    show ?thesis by simp
  next
    case (Some pag)
    with f res(2) show ?thesis by auto
  qed
qed

lemma shape_cases:
  "shape d x \<Longrightarrow>
     (d \<le> int (n_depth x) \<longrightarrow> list_all (\<lambda>e. snd e = None) (n_subs x))
     \<and> (int (n_depth x) < d \<longrightarrow>
          list_all (\<lambda>e. \<exists>ch. snd e = Some ch \<and> n_depth ch = n_depth x + 1 \<and> shape d ch)
            (n_subs x))"
  by (cases x) (auto simp add: shape_entries list_all_iff entry_shape_def split: option.splits)

text \<open>
  Claim C1, as the code has it.  Let the depth limit be \<open>d \<ge> 1\<close> and the root be at level
  0.  The build of \<open>categorytree(["A"], depth=d)\<close> returns when it is allowed more than \<open>d\<close>
  nested calls, and its result has the one entry \<open>A\<close>, a node at level 0 of the shape that
  \<open>d\<close> gives: a node whose level is below \<open>d\<close> has every subcategory expanded into a node
  one level down, of that shape again, and a node whose level has reached \<open>d\<close> records every
  subcategory as \<open>None\<close>.  Every node holds the pages and exactly the subcategory names that
  \<open>links\<close> has for its category, and building a node at the limit makes no call but the
  page and member calls for that category itself: nothing is fetched for its
  subcategories.  With \<open>depth=1\<close> it is therefore the subcategories of the root that are
  expanded, at level 1, and their subcategories that are the placeholders; \<open>depth=2\<close>
  expands one level more.
\<close>

theorem depth_limit:
  assumes d: "1 \<le> d"
  shows "(a \<noteq> [] \<and> nat d < fuel
            \<longrightarrow> fst (categorytree fuel w prefix (Many [Some a]) (Some d) s0) \<noteq> None)
     \<and> (a \<noteq> [] \<and> categorytree fuel w prefix (Many [Some a]) (Some d) s0
                      = (Some (Inr tree), s1)
            \<longrightarrow> (\<exists>nd. tree = [(a, Some nd)] \<and> n_depth nd = 0 \<and> shape d nd))
     \<and> (shape d x
            \<longrightarrow> (d \<le> int (n_depth x) \<longrightarrow> list_all (\<lambda>e. snd e = None) (n_subs x))
              \<and> (int (n_depth x) < d \<longrightarrow>
                   list_all (\<lambda>e. \<exists>ch. snd e = Some ch \<and> n_depth ch = n_depth x + 1
                                      \<and> shape d ch) (n_subs x)))
     \<and> (links_known s \<and> cat_tree_rec n w prefix cat (Some d) level s = (Some (Inr nd'), s')
            \<longrightarrow> n_depth nd' = level \<and> shape d nd'
              \<and> (\<exists>lk. ts_links s' cat = Some lk \<and> n_links nd' = fst lk
                       \<and> fst ` set (n_subs nd') = set (snd lk))
              \<and> (d \<le> int level \<longrightarrow>
                   set (ts_calls s') \<subseteq> set (ts_calls s) \<union> calls_for prefix cat))"
proof (intro conjI impI)
  let ?s = "s0\<lparr>ts_categories := Map.empty, ts_links := Map.empty\<rparr>"
  have known: "links_known ?s" by (simp add: links_known_def)
  have ct: "a \<noteq> [] \<Longrightarrow> categorytree fuel w prefix (Many [Some a]) (Some d) s0 =
      (case cat_tree_rec fuel w prefix a (Some d) 0 ?s of
        (None, s1) \<Rightarrow> (None, s1)
      | (Some (Inl e), s1) \<Rightarrow> (Some (Inl e), s1)
      | (Some (Inr nd), s1) \<Rightarrow> (Some (Inr [(a, Some nd)]), s1))"
    using d
    by (simp add: categorytree_def category_parameter_verification_def
          split: prod.splits option.splits sum.splits)
  { assume h: "a \<noteq> [] \<and> nat d < fuel"
    with cat_tree_rec_fuel [OF d, of 0 fuel w prefix a ?s]
    have "fst (cat_tree_rec fuel w prefix a (Some d) 0 ?s) \<noteq> None" by simp
    with h show "fst (categorytree fuel w prefix (Many [Some a]) (Some d) s0) \<noteq> None"
      by (auto simp add: ct split: prod.splits option.splits sum.splits) }
  { assume h: "a \<noteq> [] \<and> categorytree fuel w prefix (Many [Some a]) (Some d) s0
                      = (Some (Inr tree), s1)"
    then obtain nd where c: "cat_tree_rec fuel w prefix a (Some d) 0 ?s = (Some (Inr nd), s1)"
      and t: "tree = [(a, Some nd)]"
      by (auto simp add: ct split: prod.splits option.splits sum.splits)
    from cat_tree_rec_build [OF d known c] t
    show "\<exists>nd. tree = [(a, Some nd)] \<and> n_depth nd = 0 \<and> shape d nd" by simp }
  { assume "shape d x"
    from shape_cases [OF this]
    show "d \<le> int (n_depth x) \<Longrightarrow> list_all (\<lambda>e. snd e = None) (n_subs x)"
      and "int (n_depth x) < d \<Longrightarrow>
                   list_all (\<lambda>e. \<exists>ch. snd e = Some ch \<and> n_depth ch = n_depth x + 1
                                      \<and> shape d ch) (n_subs x)"
      by simp_all }
  { assume h: "links_known s \<and> cat_tree_rec n w prefix cat (Some d) level s
                 = (Some (Inr nd'), s')"
    then have k: "links_known s"
      and c: "cat_tree_rec n w prefix cat (Some d) level s = (Some (Inr nd'), s')" by simp_all
    from cat_tree_rec_build [OF d k c]
    show "n_depth nd' = level" "shape d nd'"
      "\<exists>lk. ts_links s' cat = Some lk \<and> n_links nd' = fst lk
                       \<and> fst ` set (n_subs nd') = set (snd lk)"
      by simp_all
    { assume "d \<le> int level"
      with d have "at_limit (Some d) level" by (simp add: at_limit_def)
      from at_limit_node(2) [OF this c k]
      show "set (ts_calls s') \<subseteq> set (ts_calls s) \<union> calls_for prefix cat" . } }
qed


lemmas run_tree = categorytree_def category_parameter_verification_def fetch_category.simps
  attempt_def Let_def wiki_abc_def at_limit_def placeholders_def tree_start_def

theorem depth_limit_witness:
  "fst (categorytree (Suc (Suc 0)) wiki_abc ''Category'' (Many [Some ''A'']) (Some 1)
          tree_start)
     = Some (Inr [(''A'', Some (Node 0 [''Alpha''] [''Letters'']
                    [(''B'', Some (Node 1 [''Beta''] [''Letters''] [(''C'', None)]))]))])
   \<and> shape 1 (Node 0 [''Alpha''] [''Letters'']
                [(''B'', Some (Node 1 [''Beta''] [''Letters''] [(''C'', None)]))])
   \<and> list_all (\<lambda>e. \<exists>ch. snd e = Some ch \<and> n_depth ch = 1 \<and> shape 1 ch)
        [(''B'', Some (Node 1 [''Beta''] [''Letters''] [(''C'', None)]))]
   \<and> fst (cat_tree_rec (Suc 0) wiki_abc ''Category'' ''B'' (Some 1) 1 tree_start)
     = Some (Inr (Node 1 [''Beta''] [''Letters''] [(''C'', None)]))
   \<and> set (ts_calls (snd (cat_tree_rec (Suc 0) wiki_abc ''Category'' ''B'' (Some 1) 1
                             tree_start)))
     \<subseteq> calls_for ''Category'' ''B''
   \<and> fst (categorytree (Suc (Suc (Suc 0))) wiki_abc ''Category'' (Many [Some ''A'']) (Some 2)
            tree_start)
     = Some (Inr [(''A'', Some (Node 0 [''Alpha''] [''Letters'']
                    [(''B'', Some (Node 1 [''Beta''] [''Letters'']
                       [(''C'', Some (Node 2 [] [''Letters''] []))]))]))])"
proof -
  let ?B = "Node 1 [''Beta''] [''Letters''] [(''C'', None)]"
  let ?A = "Node 0 [''Alpha''] [''Letters''] [(''B'', Some ?B)]"
  let ?run1 = "categorytree (Suc (Suc 0)) wiki_abc ''Category'' (Many [Some ''A'']) (Some 1)
                 tree_start"
  let ?runB = "cat_tree_rec (Suc 0) wiki_abc ''Category'' ''B'' (Some 1) 1 tree_start"
  let ?run2 = "categorytree (Suc (Suc (Suc 0))) wiki_abc ''Category'' (Many [Some ''A''])
                 (Some 2) tree_start"
  have one: "(1::int) \<le> 1" "(1::int) \<le> 2" by simp_all
  have e1: "?run1 = (Some (Inr [(''A'', Some ?A)]), snd ?run1)"
    by (simp add: prod_eq_iff run_tree)
  have eB: "?runB = (Some (Inr ?B), snd ?runB)"
    by (simp add: prod_eq_iff run_tree)
  have e2: "fst ?run2 = Some (Inr [(''A'', Some (Node 0 [''Alpha''] [''Letters'']
                    [(''B'', Some (Node 1 [''Beta''] [''Letters'']
                       [(''C'', Some (Node 2 [] [''Letters''] []))]))]))])"
    by (simp add: run_tree)
  have k: "links_known tree_start" "ts_calls tree_start = []"
    by (simp_all add: links_known_def tree_start_def)
  have a: "''A'' \<noteq> []" "nat 1 < Suc (Suc 0)" by simp_all
  note T = depth_limit [OF one(1)]
  from T [of "''A''" "Suc (Suc 0)" wiki_abc "''Category''" tree_start] a
  have r0: "fst ?run1 \<noteq> None" by blast
  from T [of "''A''" "Suc (Suc 0)" wiki_abc "''Category''" tree_start "[(''A'', Some ?A)]"
            "snd ?run1"] a e1
  have sh: "shape 1 ?A" by auto
  from T [where x = ?A] sh
  have ch: "list_all (\<lambda>e. \<exists>ch. snd e = Some ch \<and> n_depth ch = n_depth ?A + 1 \<and> shape 1 ch)
              (n_subs ?A)"
    by simp
  from T [where s = tree_start and n = "Suc 0" and w = wiki_abc and prefix = "''Category''"
        and cat = "''B''" and level = 1 and nd' = ?B and s' = "snd ?runB"] k eB
  have cl: "set (ts_calls (snd ?runB)) \<subseteq> calls_for ''Category'' ''B''"
    by simp
  from e1 have f1: "fst ?run1 = Some (Inr [(''A'', Some ?A)])" by (metis fst_conv)
  from eB have fB: "fst ?runB = Some (Inr ?B)" by (metis fst_conv)
  from ch have ch': "list_all (\<lambda>e. \<exists>ch. snd e = Some ch \<and> n_depth ch = 1 \<and> shape 1 ch)
        [(''B'', Some ?B)]" by simp
  show ?thesis by (intro conjI f1 sh ch' fB cl e2)
qed

text \<open>
  The claim as stated has the subcategories of the root as placeholders under \<open>depth=1\<close>.
  In the wiki where \<open>A\<close> has the subcategory \<open>B\<close> and \<open>B\<close> the subcategory \<open>C\<close>, the entry
  of \<open>B\<close> under the root is a node at level 1, the page and the members of \<open>B\<close> are
  fetched, and the placeholder is \<open>C\<close>: the test \<open>level >= depth\<close> is made with the level of
  the node that owns the subcategories, and the root is at level 0.
\<close>

theorem depth_one_expands_counterexample:
  "members_call wiki_abc 1 ''A'' = Inr ([''Alpha''], [''B''])
   \<and> fst (categorytree (Suc (Suc 0)) wiki_abc ''Category'' (Many [Some ''A'']) (Some 1)
            tree_start)
     = Some (Inr [(''A'', Some (Node 0 [''Alpha''] [''Letters'']
                    [(''B'', Some (Node 1 [''Beta''] [''Letters''] [(''C'', None)]))]))])
   \<and> ts_calls (snd (categorytree (Suc (Suc 0)) wiki_abc ''Category'' (Many [Some ''A''])
                      (Some 1) tree_start))
     = [PageCall ''Category:A'', MembersCall ''A'', PageCall ''Category:B'', MembersCall ''B'']"
  by (simp add: run_tree)

end
